theory Spec2Isabelle
  imports Complex_Main "HOL-Library.AList" "HOL-Library.Multiset"
begin

section \<open>Conventions of the embedding\<close>

text \<open>
  The development embeds the calculation engine of the spreadsheet: the formula parser
  (\<^verbatim>\<open>FormulaParser.ts\<close>), the dependency graph (\<^verbatim>\<open>DependencyGraph.ts\<close>) and the engine
  (\<^verbatim>\<open>SpreadsheetEngine.ts\<close>).

  \<^item> A JavaScript string is a \<^typ>\<open>string\<close>: a list of code units, restricted to the
    code units \<open>0..255\<close>.
  \<^item> A JavaScript \<^verbatim>\<open>Set<string>\<close> is the list of its elements in insertion order,
    a \<^verbatim>\<open>Map<string, _>\<close> and the property table of an object are association lists in
    insertion order (\<^const>\<open>AList.update\<close> replaces in place or appends, as
    \<^verbatim>\<open>Map.set\<close> does).
  \<^item> Mutation is explicit state passing: a function that writes to the engine returns the
    new engine state beside its result.
\<close>

definition set_add :: "'a list \<Rightarrow> 'a \<Rightarrow> 'a list" where
  \<comment> \<open>\<^verbatim>\<open>Set.prototype.add\<close>: an element already present keeps its place.\<close>
  "set_add xs x = (if x \<in> set xs then xs else xs @ [x])"

definition new_Set :: "'a list \<Rightarrow> 'a list" where
  \<comment> \<open>\<^verbatim>\<open>new Set(array)\<close>: the elements in order of first occurrence.\<close>
  "new_Set xs = fold (\<lambda>x s. set_add s x) xs []"

definition indexOf :: "'a list \<Rightarrow> 'a \<Rightarrow> int" where
  \<comment> \<open>\<^verbatim>\<open>Array.prototype.indexOf\<close>: \<open>-1\<close> when the element is absent.\<close>
  "indexOf xs x = (if x \<in> set xs then int (length (takeWhile (\<lambda>y. y \<noteq> x) xs)) else - 1)"

definition slice_from :: "'a list \<Rightarrow> int \<Rightarrow> 'a list" where
  \<comment> \<open>\<^verbatim>\<open>Array.prototype.slice(start)\<close>: a negative start counts from the end.\<close>
  "slice_from xs i =
     (if i < 0 then drop (nat (max (int (length xs) + i) 0)) xs else drop (nat i) xs)"

fun join :: "string \<Rightarrow> string list \<Rightarrow> string" where
  "join sep [] = []"
| "join sep [x] = x"
| "join sep (x # y # ys) = x @ sep @ join sep (y # ys)"

definition arrow :: string where
  \<comment> \<open>The separator \<^verbatim>\<open>' \<rightarrow> '\<close> of the cycle message; the arrow U+2192 is written as
      its three UTF-8 bytes, since it lies outside the code units \<open>0..255\<close>.\<close>
  "arrow = [CHR '' '', CHR 0xE2, CHR 0x86, CHR 0x92, CHR '' '']"

section \<open>The dependency graph (\<^verbatim>\<open>DependencyGraph.ts\<close>)\<close>

text \<open>
  The two maps of \<^verbatim>\<open>createDependencyGraph\<close>: \<open>g_dependencies\<close> sends a cell to the
  set of cells its formula reads, \<open>g_dependents\<close> sends a cell to the set of cells that
  read it.
\<close>

record DependencyGraph =
  g_dependencies :: "(string \<times> string list) list"
  g_dependents :: "(string \<times> string list) list"

datatype SpreadsheetError =
    CircularReferenceError (message: string) (chain: "string list")
  | FormulaError (message: string)
  | ReferenceError (message: string) (invalidRef: string)

definition createDependencyGraph :: DependencyGraph where
  "createDependencyGraph = \<lparr>g_dependencies = [], g_dependents = []\<rparr>"

definition map_get_or_empty :: "(string \<times> string list) list \<Rightarrow> string \<Rightarrow> string list" where
  \<comment> \<open>\<^verbatim>\<open>m.get(k) || []\<close>, and a loop over \<^verbatim>\<open>m.get(k)\<close> guarded by \<^verbatim>\<open>if (deps)\<close>.\<close>
  "map_get_or_empty m k = (case map_of m k of None \<Rightarrow> [] | Some s \<Rightarrow> s)"

definition addDependency :: "DependencyGraph \<Rightarrow> string \<Rightarrow> string \<Rightarrow> DependencyGraph" where
  "addDependency g dependentCell dependency =
     (let deps1 = (if map_of (g_dependencies g) dependentCell = None
                   then AList.update dependentCell [] (g_dependencies g) else g_dependencies g);
          dpts1 = (if map_of (g_dependents g) dependency = None
                   then AList.update dependency [] (g_dependents g) else g_dependents g)
      in \<lparr>g_dependencies =
            AList.update dependentCell (set_add (map_get_or_empty deps1 dependentCell) dependency) deps1,
          g_dependents =
            AList.update dependency (set_add (map_get_or_empty dpts1 dependency) dependentCell) dpts1\<rparr>)"

definition removeDependencies :: "DependencyGraph \<Rightarrow> string \<Rightarrow> DependencyGraph" where
  "removeDependencies g cell =
     (case map_of (g_dependencies g) cell of
        None \<Rightarrow> g
      | Some deps \<Rightarrow>
          \<lparr>g_dependencies = AList.delete cell (g_dependencies g),
           g_dependents =
             fold (\<lambda>dep dpts.
                     (case map_of dpts dep of
                        None \<Rightarrow> dpts
                      | Some cellDependents \<Rightarrow> AList.update dep (removeAll cell cellDependents) dpts))
                  deps (g_dependents g)\<rparr>)"

definition getDependencies :: "DependencyGraph \<Rightarrow> string \<Rightarrow> string list" where
  "getDependencies g cell = map_get_or_empty (g_dependencies g) cell"

definition getDependents :: "DependencyGraph \<Rightarrow> string \<Rightarrow> string list" where
  "getDependents g cell = map_get_or_empty (g_dependents g) cell"

definition clear_graph :: DependencyGraph where
  "clear_graph = \<lparr>g_dependencies = [], g_dependents = []\<rparr>"

record GraphStats =
  totalDependencies :: nat
  totalCells :: nat

definition getStats_graph :: "DependencyGraph \<Rightarrow> GraphStats" where
  "getStats_graph g =
     \<lparr>totalDependencies = fold (\<lambda>(k, deps) sum. sum + length deps) (g_dependencies g) 0,
      totalCells = length (g_dependencies g)\<rparr>"

subsection \<open>\<^verbatim>\<open>getAllDependents\<close>\<close>

text \<open>
  \<^verbatim>\<open>collectDependents(currentCell)\<close> returns at once on a visited cell; otherwise it
  marks the cell and runs, for each direct dependent, \<^verbatim>\<open>result.push(dependent)\<close>
  followed by \<^verbatim>\<open>collectDependents(dependent)\<close>. The function \<open>forDependents\<close> is that
  \<^verbatim>\<open>for\<close> loop with the recursive call written in place; the state is the pair of the
  closure variables \<^verbatim>\<open>visited\<close> and \<^verbatim>\<open>result\<close>.
\<close>

function forDependents ::
  "DependencyGraph \<Rightarrow> string list \<Rightarrow> string list \<times> string list \<Rightarrow> string list \<times> string list"
where
  "forDependents g [] st = st"
| "forDependents g (dependentCell # rest) (visited, result) =
     (if dependentCell \<in> set visited then forDependents g rest (visited, result @ [dependentCell])
      else forDependents g rest
             (forDependents g (getDependents g dependentCell)
                (dependentCell # visited, result @ [dependentCell])))"
  by pat_completeness auto

definition dependents_keys :: "DependencyGraph \<Rightarrow> string set" where
  "dependents_keys g = fst ` set (g_dependents g)"

lemma getDependents_no_key: "d \<notin> dependents_keys g \<Longrightarrow> getDependents g d = []"
  by (force simp: getDependents_def map_get_or_empty_def dependents_keys_def
            split: option.splits dest: map_of_SomeD)

lemma forDependents_visited_grows:
  "forDependents_dom (g, ds, st) \<Longrightarrow> set (fst st) \<subseteq> set (fst (forDependents g ds st))"
  by (induct g ds st rule: forDependents.pinduct) (auto simp: forDependents.psimps)

termination forDependents
  apply (relation "inv_image (finite_psubset <*lex*> less_than)
           (\<lambda>(g, ds, st). (dependents_keys g - set (fst st), length ds))")
     apply (intro wf_inv_image wf_lex_prod wf_finite_psubset wf_less_than)
    apply simp
  subgoal for g d ds visited result
    by (cases "d \<in> dependents_keys g")
       (auto simp: finite_psubset_def dependents_keys_def getDependents_no_key)
  subgoal for g d ds visited result
    using forDependents_visited_grows[of g "getDependents g d" "(d # visited, result @ [d])"]
    by (cases "d \<in> dependents_keys g")
       (auto simp: finite_psubset_def dependents_keys_def getDependents_no_key)
  done

definition collectDependents ::
  "DependencyGraph \<Rightarrow> string \<Rightarrow> string list \<times> string list \<Rightarrow> string list \<times> string list"
where
  "collectDependents g currentCell st =
     (case st of (visited, result) \<Rightarrow>
        if currentCell \<in> set visited then st
        else forDependents g (getDependents g currentCell) (currentCell # visited, result))"

definition getAllDependents :: "DependencyGraph \<Rightarrow> string \<Rightarrow> string list" where
  "getAllDependents g cell = snd (collectDependents g cell ([], []))"

text \<open>
  The traversal in the words of the specification, for comparison with the code: a
  depth-first traversal that keeps the cells still to be looked at on a stack. The cell on
  top is listed when it is taken from the stack (it is discovered); unless it was visited
  before, it is marked as visited and its direct dependents are put on the stack, in
  insertion order. \<open>discovery_order g stack visited\<close> is the list of the cells in the
  order in which they are discovered.
\<close>

function discovery_order :: "DependencyGraph \<Rightarrow> string list \<Rightarrow> string list \<Rightarrow> string list" where
  "discovery_order g [] visited = []"
| "discovery_order g (cell # stack) visited =
     cell # (if cell \<in> set visited then discovery_order g stack visited
             else discovery_order g (getDependents g cell @ stack) (cell # visited))"
  by pat_completeness auto
termination
  apply (relation "inv_image (finite_psubset <*lex*> less_than)
           (\<lambda>(g, stack, visited). (dependents_keys g - set visited, length stack))")
    apply (intro wf_inv_image wf_lex_prod wf_finite_psubset wf_less_than)
   apply simp
  subgoal for g cell stack visited
    by (cases "cell \<in> dependents_keys g")
       (auto simp: finite_psubset_def dependents_keys_def getDependents_no_key)
  done

subsection \<open>\<^verbatim>\<open>checkCircularReference\<close>\<close>

text \<open>
  \<^verbatim>\<open>hasCycle(node)\<close> works on the closure variables \<^verbatim>\<open>visited\<close>,
  \<^verbatim>\<open>recursionStack\<close> and \<^verbatim>\<open>path\<close>. \<open>forHasCycle\<close> is the loop
  \<^verbatim>\<open>for (const dep of deps) if (hasCycle(dep)) return true\<close> with the call written in
  place: it returns \<open>True\<close> as soon as one call does, leaving stack and path as they are.
\<close>

type_synonym cycle_state = "string list \<times> string list \<times> string list"

function forHasCycle ::
  "(string \<times> string list) list \<Rightarrow> string list \<Rightarrow> cycle_state \<Rightarrow> bool \<times> cycle_state"
where
  "forHasCycle tempGraph [] st = (False, st)"
| "forHasCycle tempGraph (node # rest) (visited, recursionStack, path) =
     (if node \<in> set recursionStack then (True, (visited, recursionStack, path))
      else if node \<in> set visited then forHasCycle tempGraph rest (visited, recursionStack, path)
      else
        (case forHasCycle tempGraph (map_get_or_empty tempGraph node)
                (node # visited, recursionStack @ [node], path @ [node]) of
           (found, visited', recursionStack', path') \<Rightarrow>
             if found then (True, visited', recursionStack', path')
             else forHasCycle tempGraph rest
                    (visited', removeAll node recursionStack', butlast path')))"
  by pat_completeness auto

lemma map_get_or_empty_no_key: "k \<notin> fst ` set m \<Longrightarrow> map_get_or_empty m k = []"
  by (force simp: map_get_or_empty_def split: option.splits dest: map_of_SomeD)

lemma forHasCycle_visited_grows:
  "forHasCycle_dom (tg, ds, st) \<Longrightarrow>
     set (fst st) \<subseteq> set (fst (snd (forHasCycle tg ds st)))"
proof (induct tg ds st rule: forHasCycle.pinduct)
  case (1 tg st)
  then show ?case by (simp add: forHasCycle.psimps)
next
  case (2 tg node rest visited recursionStack path)
  show ?case
  proof (cases "node \<in> set recursionStack \<or> node \<in> set visited")
    case True
    with 2 show ?thesis by (auto simp: forHasCycle.psimps)
  next
    case False
    obtain found v' s' p' where r:
      "forHasCycle tg (map_get_or_empty tg node)
         (node # visited, recursionStack @ [node], path @ [node]) = (found, v', s', p')"
      by (metis prod_cases4)
    from 2(3) False r have inner: "set (node # visited) \<subseteq> set v'" by simp
    show ?thesis
    proof (cases found)
      case True
      with 2(1) False r inner show ?thesis by (simp add: forHasCycle.psimps)
    next
      case nf: False
      from 2(4)[OF _ _ r[symmetric] refl refl nf] False
      have "set v' \<subseteq> set (fst (snd (forHasCycle tg rest (v', removeAll node s', butlast p'))))"
        by simp
      with 2(1) False r inner nf show ?thesis by (auto simp: forHasCycle.psimps)
    qed
  qed
qed

termination forHasCycle
  apply (relation "inv_image (finite_psubset <*lex*> less_than)
           (\<lambda>(tg, ds, st). (fst ` set tg - set (fst st), length ds))")
     apply (intro wf_inv_image wf_lex_prod wf_finite_psubset wf_less_than)
    apply simp
  subgoal for tg d ds visited recursionStack path
    by (cases "d \<in> fst ` set tg")
       (auto simp: finite_psubset_def map_get_or_empty_no_key)
  subgoal premises prems for tg d ds visited recursionStack path x y xa ya xb yb
  proof -
    have "fst (snd (forHasCycle tg (map_get_or_empty tg d)
                      (d # visited, recursionStack @ [d], path @ [d]))) = xa"
      using prems by (metis fst_conv snd_conv)
    with prems forHasCycle_visited_grows[of tg "map_get_or_empty tg d"
            "(d # visited, recursionStack @ [d], path @ [d])"]
    have "set visited \<subseteq> set xa" by simp
    then have "fst ` set tg - set xa \<subseteq> fst ` set tg - set visited" by blast
    then show ?thesis by (auto simp: finite_psubset_def)
  qed
  done

definition hasCycle ::
  "(string \<times> string list) list \<Rightarrow> string \<Rightarrow> cycle_state \<Rightarrow> bool \<times> cycle_state" where
  "hasCycle tempGraph node st = forHasCycle tempGraph [node] st"

definition cycleError :: "bool \<times> cycle_state \<Rightarrow> string \<Rightarrow> SpreadsheetError option" where
  \<comment> \<open>The end of \<^verbatim>\<open>checkCircularReference\<close>: the error built from \<^verbatim>\<open>path\<close> when
      \<^verbatim>\<open>hasCycle(cell)\<close> returned true, \<^verbatim>\<open>null\<close> otherwise.\<close>
  "cycleError r cell =
     (if fst r then
        (let path = snd (snd (snd r));
             cycleStart = indexOf path cell;
             cycle = slice_from path cycleStart @ [cell]
         in Some (CircularReferenceError
                    (''Circular reference detected: '' @ join arrow cycle) cycle))
      else None)"

definition checkCircularReference ::
  "DependencyGraph \<Rightarrow> string \<Rightarrow> string list \<Rightarrow> SpreadsheetError option" where
  "checkCircularReference g cell cellDependencies =
     (let tempGraph = AList.update cell (new_Set cellDependencies) (g_dependencies g)
      in cycleError (hasCycle tempGraph cell ([], [], [])) cell)"

subsection \<open>\<^verbatim>\<open>checkCircularReference\<close> on a store of objects\<close>

text \<open>
  Whether \<^verbatim>\<open>checkCircularReference\<close> writes to the graph depends on what
  \<^verbatim>\<open>tempGraph\<close> shares with it, so the function is modelled a second time on a store of
  objects. A \<^verbatim>\<open>Map\<close> object holds references to \<^verbatim>\<open>Set\<close> objects; a reference is an
  index into the list of objects, and allocation appends. \<^verbatim>\<open>new Map(dependencies)\<close>
  copies the entries of the map, that is the references: the sets are shared with the
  graph. \<^verbatim>\<open>hasCycle\<close> reads \<^verbatim>\<open>tempGraph\<close> and writes only to the locals
  \<^verbatim>\<open>visited\<close>, \<^verbatim>\<open>recursionStack\<close> and \<^verbatim>\<open>path\<close>, which stay explicit values.
\<close>

datatype js_object = MapObject "(string \<times> nat) list" | SetObject "string list"

record graph_store =
  objects :: "js_object list"
  dependencies_ref :: nat
  dependents_ref :: nat

definition map_entries :: "graph_store \<Rightarrow> nat \<Rightarrow> (string \<times> nat) list" where
  "map_entries S r =
     (if r < length (objects S)
      then (case objects S ! r of MapObject m \<Rightarrow> m | SetObject s \<Rightarrow> [])
      else [])"

definition set_elements :: "graph_store \<Rightarrow> nat \<Rightarrow> string list" where
  "set_elements S r =
     (if r < length (objects S)
      then (case objects S ! r of SetObject s \<Rightarrow> s | MapObject m \<Rightarrow> [])
      else [])"

definition allocate :: "js_object \<Rightarrow> graph_store \<Rightarrow> nat \<times> graph_store" where
  "allocate obj S = (length (objects S), S\<lparr>objects := objects S @ [obj]\<rparr>)"

definition Map_set :: "graph_store \<Rightarrow> nat \<Rightarrow> string \<Rightarrow> nat \<Rightarrow> graph_store" where
  \<comment> \<open>\<^verbatim>\<open>m.set(key, value)\<close> on the map object at \<open>r\<close>.\<close>
  "Map_set S r key val =
     S\<lparr>objects := (objects S)[r := MapObject (AList.update key val (map_entries S r))]\<rparr>"

definition read_map :: "graph_store \<Rightarrow> nat \<Rightarrow> (string \<times> string list) list" where
  \<comment> \<open>The map at \<open>r\<close> with each set reference replaced by the elements of the set.\<close>
  "read_map S r = map (\<lambda>entry. (fst entry, set_elements S (snd entry))) (map_entries S r)"

definition graph_of :: "graph_store \<Rightarrow> DependencyGraph" where
  "graph_of S =
     \<lparr>g_dependencies = read_map S (dependencies_ref S),
      g_dependents = read_map S (dependents_ref S)\<rparr>"

definition well_formed :: "graph_store \<Rightarrow> bool" where
  \<comment> \<open>The two maps are objects of the store, and so is every set they refer to.\<close>
  "well_formed S =
     (dependencies_ref S < length (objects S) \<and> dependents_ref S < length (objects S) \<and>
      list_all (\<lambda>entry. snd entry < length (objects S)) (map_entries S (dependencies_ref S)) \<and>
      list_all (\<lambda>entry. snd entry < length (objects S)) (map_entries S (dependents_ref S)))"

definition checkCircularReference_store ::
  "graph_store \<Rightarrow> string \<Rightarrow> string list \<Rightarrow> SpreadsheetError option \<times> graph_store" where
  "checkCircularReference_store S cell cellDependencies =
     (case allocate (MapObject (map_entries S (dependencies_ref S))) S of
        (tempGraph, S1) \<Rightarrow>
          (case allocate (SetObject (new_Set cellDependencies)) S1 of
             (cellSet, S2) \<Rightarrow>
               (let S3 = Map_set S2 tempGraph cell cellSet
                in (cycleError (hasCycle (read_map S3 tempGraph) cell ([], [], [])) cell, S3))))"

section \<open>The formula parser (\<^verbatim>\<open>FormulaParser.ts\<close>)\<close>

subsection \<open>Values and the JavaScript host\<close>

text \<open>
  A JavaScript number is a finite value, an infinity or \<open>NaN\<close>. Finite values are
  exact rationals: the rounding of IEEE doubles, overflow and the sign of zero are not
  modelled. A cell value is \<^verbatim>\<open>string | number | undefined\<close>.
\<close>

datatype jsnum = Fin rat | PosInf | NegInf | NaN

datatype cellval = Undefined | Str string | Num jsnum

text \<open>
  The built-ins of the JavaScript runtime that convert between strings and numbers, and
  the dynamic evaluation \<^verbatim>\<open>new Function(body)()\<close>, are not code of the repository: they
  are parameters of the model. \<open>runFunction\<close> receives the function body and says
  whether the call returned a number, returned another kind of value, or threw.
\<close>

datatype js_completion = ReturnedNumber jsnum | ReturnedOther | Thrown

record host =
  parseFloat :: "string \<Rightarrow> jsnum"
  numberToString :: "jsnum \<Rightarrow> string"
  runFunction :: "string \<Rightarrow> js_completion"

definition isNaN :: "jsnum \<Rightarrow> bool" where
  "isNaN n = (n = NaN)"

fun js_add :: "jsnum \<Rightarrow> jsnum \<Rightarrow> jsnum" where
  "js_add NaN y = NaN"
| "js_add x NaN = NaN"
| "js_add PosInf NegInf = NaN"
| "js_add NegInf PosInf = NaN"
| "js_add PosInf y = PosInf"
| "js_add x PosInf = PosInf"
| "js_add NegInf y = NegInf"
| "js_add x NegInf = NegInf"
| "js_add (Fin a) (Fin b) = Fin (a + b)"

fun js_div_length :: "jsnum \<Rightarrow> nat \<Rightarrow> jsnum" where
  \<comment> \<open>Division by \<^verbatim>\<open>args.length\<close>, which is positive where the source divides.\<close>
  "js_div_length (Fin a) n = Fin (a / of_nat n)"
| "js_div_length x n = x"

fun js_min :: "jsnum \<Rightarrow> jsnum \<Rightarrow> jsnum" where
  "js_min NaN y = NaN"
| "js_min x NaN = NaN"
| "js_min NegInf y = NegInf"
| "js_min x NegInf = NegInf"
| "js_min PosInf y = y"
| "js_min x PosInf = x"
| "js_min (Fin a) (Fin b) = Fin (min a b)"

fun js_max :: "jsnum \<Rightarrow> jsnum \<Rightarrow> jsnum" where
  "js_max NaN y = NaN"
| "js_max x NaN = NaN"
| "js_max PosInf y = PosInf"
| "js_max x PosInf = PosInf"
| "js_max NegInf y = y"
| "js_max x NegInf = x"
| "js_max (Fin a) (Fin b) = Fin (max a b)"

definition Math_min :: "jsnum list \<Rightarrow> jsnum" where
  "Math_min args = fold (\<lambda>x m. js_min m x) args PosInf"

definition Math_max :: "jsnum list \<Rightarrow> jsnum" where
  "Math_max args = fold (\<lambda>x m. js_max m x) args NegInf"

definition round6 :: "rat \<Rightarrow> rat" where
  \<comment> \<open>\<^verbatim>\<open>Math.round(result * 1000000) / 1000000\<close>; \<^verbatim>\<open>Math.round\<close> rounds halves up.
      The rounding is exact on the rationals: the code computes it on doubles, where the
      product can overflow and a value next to a half can round the other way.\<close>
  "round6 r = of_int \<lfloor>r * 1000000 + 1 / 2\<rfloor> / 1000000"

subsection \<open>Characters, decimal numerals and string operations\<close>

definition isUpper :: "char \<Rightarrow> bool" where
  \<comment> \<open>\<^verbatim>\<open>[A-Z]\<close>\<close>
  "isUpper c = (65 \<le> (of_char c :: nat) \<and> (of_char c :: nat) \<le> 90)"

definition isDigit :: "char \<Rightarrow> bool" where
  \<comment> \<open>\<^verbatim>\<open>[0-9]\<close>\<close>
  "isDigit c = (48 \<le> (of_char c :: nat) \<and> (of_char c :: nat) \<le> 57)"

definition isLetter :: "char \<Rightarrow> bool" where
  \<comment> \<open>\<^verbatim>\<open>[A-Z]\<close> under the flag \<^verbatim>\<open>i\<close>\<close>
  "isLetter c = (isUpper c \<or> (97 \<le> (of_char c :: nat) \<and> (of_char c :: nat) \<le> 122))"

definition isSpace :: "char \<Rightarrow> bool" where
  \<comment> \<open>\<^verbatim>\<open>\s\<close>, and the characters \<^verbatim>\<open>trim\<close> removes, among the code units \<open>0..255\<close>\<close>
  "isSpace c = ((of_char c :: nat) \<in> {9, 10, 11, 12, 13, 32, 160})"

definition trim :: "string \<Rightarrow> string" where
  "trim s = rev (dropWhile isSpace (rev (dropWhile isSpace s)))"

definition toUpperCase :: "string \<Rightarrow> string" where
  \<comment> \<open>On the ASCII letters, which is all a function name captured by
      \<^verbatim>\<open>FUNCTION_REGEX\<close> contains.\<close>
  "toUpperCase s =
     map (\<lambda>c. if 97 \<le> (of_char c :: nat) \<and> (of_char c :: nat) \<le> 122
               then char_of ((of_char c :: nat) - 32) else c) s"

definition startsWith :: "string \<Rightarrow> string \<Rightarrow> bool" where
  "startsWith s p = (take (length p) s = p)"

definition slice :: "string \<Rightarrow> nat \<Rightarrow> nat \<Rightarrow> string" where
  \<comment> \<open>\<^verbatim>\<open>s.slice(a, b)\<close> for non-negative indices: empty when \<open>b \<le> a\<close>.\<close>
  "slice s a b = take (b - a) (drop a s)"

fun replace_first :: "string \<Rightarrow> string \<Rightarrow> string \<Rightarrow> string" where
  \<comment> \<open>\<^verbatim>\<open>s.replace(pattern, replacement)\<close> with a string pattern: the first occurrence
      only. No replacement text of the source contains \<^verbatim>\<open>$\<close>.\<close>
  "replace_first pat rep [] = (if pat = [] then rep else [])"
| "replace_first pat rep (c # s) =
     (if take (length pat) (c # s) = pat then rep @ drop (length pat) (c # s)
      else c # replace_first pat rep s)"

function replace_all :: "string \<Rightarrow> string \<Rightarrow> string \<Rightarrow> string" where
  \<comment> \<open>\<^verbatim>\<open>s.replace(new RegExp(pattern, 'g'), replacement)\<close> for a pattern without
      special characters (a cell reference): every occurrence, left to right.\<close>
  "replace_all pat rep [] = []"
| "replace_all pat rep (c # s) =
     (if pat \<noteq> [] \<and> take (length pat) (c # s) = pat
      then rep @ replace_all pat rep (drop (length pat) (c # s))
      else c # replace_all pat rep s)"
  by pat_completeness auto
termination
  by (relation "measure (\<lambda>(pat, rep, s). length s)") auto

fun numeral_string :: "nat \<Rightarrow> string" where
  \<comment> \<open>The decimal numeral of a non-negative integer (\<^verbatim>\<open>`${row}`\<close>).\<close>
  "numeral_string n =
     (if n < 10 then [char_of (48 + n)]
      else numeral_string (n div 10) @ [char_of (48 + n mod 10)])"

definition parseInt :: "string \<Rightarrow> nat" where
  \<comment> \<open>\<^verbatim>\<open>parseInt\<close> on a string of decimal digits (the group \<^verbatim>\<open>[0-9]+\<close>).\<close>
  "parseInt s = foldl (\<lambda>n c. 10 * n + ((of_char c :: nat) - 48)) 0 s"

subsection \<open>Regular expressions\<close>

text \<open>
  \<^verbatim>\<open>s.matchAll(re)\<close> for a global regular expression: the matches from left to right,
  each search starting where the previous match ended. The regular expression is given by
  the function that tries a match at the head of a string and returns the length of the
  match. A match is returned with its index. An empty match advances by one character.
\<close>

function matchAll :: "(string \<Rightarrow> nat option) \<Rightarrow> nat \<Rightarrow> string \<Rightarrow> (nat \<times> string) list" where
  "matchAll re i [] = (case re [] of None \<Rightarrow> [] | Some n \<Rightarrow> [(i, [])])"
| "matchAll re i (c # s) =
     (case re (c # s) of
        None \<Rightarrow> matchAll re (i + 1) s
      | Some n \<Rightarrow>
          if n = 0 then (i, []) # matchAll re (i + 1) s
          else (i, take n (c # s)) # matchAll re (i + n) (drop n (c # s)))"
  by pat_completeness auto
termination
  by (relation "measure (\<lambda>(re, i, s). length s)") auto

definition CELL_REGEX :: "string \<Rightarrow> nat option" where
  \<comment> \<open>\<^verbatim>\<open>/([A-Z])([0-9]+)/g\<close>\<close>
  "CELL_REGEX s =
     (case s of
        [] \<Rightarrow> None
      | c # r \<Rightarrow>
          if isUpper c \<and> takeWhile isDigit r \<noteq> []
          then Some (1 + length (takeWhile isDigit r)) else None)"

definition RANGE_REGEX :: "string \<Rightarrow> nat option" where
  \<comment> \<open>\<^verbatim>\<open>/([A-Z][0-9]+):([A-Z][0-9]+)/g\<close>\<close>
  "RANGE_REGEX s =
     (case CELL_REGEX s of
        None \<Rightarrow> None
      | Some n \<Rightarrow>
          (case drop n s of
             [] \<Rightarrow> None
           | colon # r \<Rightarrow>
               if colon = CHR '':'' then
                 (case CELL_REGEX r of None \<Rightarrow> None | Some m \<Rightarrow> Some (n + 1 + m))
               else None))"

definition FUNCTION_REGEX :: "string \<Rightarrow> nat option" where
  \<comment> \<open>\<^verbatim>\<open>/([A-Z]+)\s*\(/gi\<close>\<close>
  "FUNCTION_REGEX s =
     (let name = takeWhile isLetter s;
          r = dropWhile isLetter s;
          spaces = takeWhile isSpace r
      in if name = [] then None
         else (case dropWhile isSpace r of
                 [] \<Rightarrow> None
               | p # r' \<Rightarrow>
                   if p = CHR ''('' then Some (length name + length spaces + 1) else None))"

definition range_start :: "string \<Rightarrow> string" where
  \<comment> \<open>Group 1 of a match of \<^verbatim>\<open>RANGE_REGEX\<close>.\<close>
  "range_start m = takeWhile (\<lambda>c. c \<noteq> CHR '':'') m"

definition range_end :: "string \<Rightarrow> string" where
  \<comment> \<open>Group 2 of a match of \<^verbatim>\<open>RANGE_REGEX\<close>.\<close>
  "range_end m = drop 1 (dropWhile (\<lambda>c. c \<noteq> CHR '':'') m)"

definition function_name :: "string \<Rightarrow> string" where
  \<comment> \<open>Group 1 of a match of \<^verbatim>\<open>FUNCTION_REGEX\<close>.\<close>
  "function_name m = takeWhile isLetter m"

subsection \<open>References and ranges\<close>

definition cell_groups :: "string \<Rightarrow> (char \<times> string) option" where
  \<comment> \<open>\<^verbatim>\<open>s.match(/([A-Z])([0-9]+)/)\<close>: the groups of the first match, if any.\<close>
  "cell_groups s =
     (case matchAll CELL_REGEX 0 s of
        [] \<Rightarrow> None
      | (i, m) # ms \<Rightarrow> (case m of [] \<Rightarrow> None | col # row \<Rightarrow> Some (col, row)))"

definition expandRange :: "string \<Rightarrow> string \<Rightarrow> string list" where
  "expandRange start end' =
     (case cell_groups start of
        None \<Rightarrow> []
      | Some (startCol, startRowStr) \<Rightarrow>
          (case cell_groups end' of
             None \<Rightarrow> []
           | Some (endCol, endRowStr) \<Rightarrow>
               (let startRow = parseInt startRowStr;
                    endRow = parseInt endRowStr
                in if startCol = endCol then
                     map (\<lambda>row. startCol # numeral_string row)
                       [min startRow endRow ..< Suc (max startRow endRow)]
                   else if startRow = endRow then
                     (let startColIndex = (of_char startCol :: nat) - 65;
                          endColIndex = (of_char endCol :: nat) - 65
                      in map (\<lambda>colIndex. char_of (65 + colIndex) # numeral_string startRow)
                           [min startColIndex endColIndex ..<
                              Suc (max startColIndex endColIndex)])
                   else [])))"

definition extractCellReferences :: "string \<Rightarrow> string list" where
  "extractCellReferences formula =
     (let cellRefs = fold (\<lambda>m refs. set_add refs (snd m)) (matchAll CELL_REGEX 0 formula) []
      in fold (\<lambda>m refs.
                 fold (\<lambda>cell refs'. set_add refs' cell)
                   (expandRange (range_start (snd m)) (range_end (snd m))) refs)
           (matchAll RANGE_REGEX 0 formula) cellRefs)"

definition isValidCellReference :: "string \<Rightarrow> bool" where
  \<comment> \<open>\<^verbatim>\<open>/^[A-J][1-5]$/.test(cellRef)\<close>\<close>
  "isValidCellReference cellRef =
     (case cellRef of
        [col, row] \<Rightarrow>
          65 \<le> (of_char col :: nat) \<and> (of_char col :: nat) \<le> 74 \<and>
          49 \<le> (of_char row :: nat) \<and> (of_char row :: nat) \<le> 53
      | _ \<Rightarrow> False)"

subsection \<open>\<^verbatim>\<open>parseFormula\<close>\<close>

definition OPERATORS :: "char list" where
  "OPERATORS = ''+-*/()''"

definition tokenize_step :: "string list \<times> string \<Rightarrow> char \<Rightarrow> string list \<times> string" where
  "tokenize_step st ch =
     (case st of (tokens, current) \<Rightarrow>
        if ch \<in> set OPERATORS then
          (if trim current \<noteq> [] then (tokens @ [trim current] @ [[ch]], [])
           else (tokens @ [[ch]], current))
        else if ch = CHR '' '' then
          (if trim current \<noteq> [] then (tokens @ [trim current], []) else (tokens, current))
        else (tokens, current @ [ch]))"

definition tokenize :: "string \<Rightarrow> string list" where
  "tokenize expression =
     (case foldl tokenize_step ([], []) expression of
        (tokens, current) \<Rightarrow> if trim current \<noteq> [] then tokens @ [trim current] else tokens)"

record ParsedFormula =
  p_tokens :: "string list"
  p_dependencies :: "string list"

definition parseFormula :: "string \<Rightarrow> ParsedFormula" where
  "parseFormula formula =
     (if \<not> startsWith formula ''=''
      then \<lparr>p_tokens = [formula], p_dependencies = []\<rparr>
      else (let expression = drop 1 formula
            in \<lparr>p_tokens = tokenize expression,
                p_dependencies = extractCellReferences expression\<rparr>))"

subsection \<open>Evaluation\<close>

definition isArithmetic :: "string \<Rightarrow> bool" where
  \<comment> \<open>\<^verbatim>\<open>/^[0-9+\-*/.() ]+$/.test(expression)\<close>\<close>
  "isArithmetic expression =
     (expression \<noteq> [] \<and> list_all (\<lambda>c. isDigit c \<or> c \<in> set ''+-*/.() '') expression)"

definition evaluateExpression :: "host \<Rightarrow> string \<Rightarrow> cellval" where
  \<comment> \<open>A call of the constructed function that throws is caught.\<close>
  "evaluateExpression h expression =
     (if isArithmetic expression then
        (case runFunction h (''return '' @ expression) of
           Thrown \<Rightarrow> Str ''#ERROR!''
         | ReturnedOther \<Rightarrow> Str ''#NUM!''
         | ReturnedNumber n \<Rightarrow>
             (case n of Fin r \<Rightarrow> Num (Fin (round6 r)) | _ \<Rightarrow> Str ''#NUM!''))
      else Str ''#VALUE!'')"

definition evaluateFunction :: "string \<Rightarrow> jsnum list \<Rightarrow> cellval" where
  "evaluateFunction functionName args =
     (let name = toUpperCase functionName in
      if name = ''SUM'' then Num (fold (\<lambda>val sum. js_add sum val) args (Fin 0))
      else if name = ''AVERAGE'' then
        (if length args > 0
         then Num (js_div_length (fold (\<lambda>val sum. js_add sum val) args (Fin 0)) (length args))
         else Num (Fin 0))
      else if name = ''MIN'' then (if length args > 0 then Num (Math_min args) else Num (Fin 0))
      else if name = ''MAX'' then (if length args > 0 then Num (Math_max args) else Num (Fin 0))
      else if name = ''COUNT'' then Num (Fin (of_nat (length args)))
      else Str ''#NAME!'')"

definition toString :: "host \<Rightarrow> cellval \<Rightarrow> string" where
  \<comment> \<open>\<^verbatim>\<open>toString()\<close> of a \<^verbatim>\<open>number | string\<close>.\<close>
  "toString h v = (case v of Str s \<Rightarrow> s | Num n \<Rightarrow> numberToString h n | Undefined \<Rightarrow> [])"

record EvaluationResult =
  r_value :: cellval
  r_error :: "string option"
  r_dependencies :: "string list"

fun findClosing :: "string \<Rightarrow> nat \<Rightarrow> int \<Rightarrow> nat \<Rightarrow> nat" where
  \<comment> \<open>The loop \<^verbatim>\<open>for (let i = endIndex; i < expression.length; i++)\<close> over the rest of
      the expression from \<open>i\<close>: the index of the parenthesis that brings the count back
      to zero, or the initial \<^verbatim>\<open>endIndex\<close> when there is none.\<close>
  "findClosing [] i parenCount endIndex = endIndex"
| "findClosing (c # s) i parenCount endIndex =
     (let parenCount1 = (if c = CHR ''('' then parenCount + 1 else parenCount) in
      if c = CHR '')'' then
        (if parenCount1 - 1 = 0 then i else findClosing s (i + 1) (parenCount1 - 1) endIndex)
      else findClosing s (i + 1) parenCount1 endIndex)"

definition numericValue :: "host \<Rightarrow> cellval \<Rightarrow> jsnum option" where
  \<comment> \<open>The value pushed to \<^verbatim>\<open>args\<close>, if any: a missing value and \<open>NaN\<close> are skipped.\<close>
  "numericValue h cellValue =
     (case cellValue of
        Undefined \<Rightarrow> None
      | Str s \<Rightarrow> (if isNaN (parseFloat h s) then None else Some (parseFloat h s))
      | Num n \<Rightarrow> (if isNaN n then None else Some n))"

definition argCells :: "string \<Rightarrow> string list" where
  \<comment> \<open>The cells whose values \<^verbatim>\<open>evaluateFormula\<close> reads for \<^verbatim>\<open>argsString\<close>: the cells
      of the ranges first, then the cells that remain once the text of each range is
      removed.\<close>
  "argCells argsString =
     (let rangeMatches = matchAll RANGE_REGEX 0 argsString;
          rangeCells = concat (map (\<lambda>m. expandRange (range_start (snd m)) (range_end (snd m)))
                                 rangeMatches);
          argsWithoutRanges = fold (\<lambda>m s. replace_first (snd m) [] s) rangeMatches argsString;
          individualCells = map snd (matchAll CELL_REGEX 0 argsWithoutRanges)
      in rangeCells @ individualCells)"

definition functionArgs :: "host \<Rightarrow> (string \<Rightarrow> cellval) \<Rightarrow> string \<Rightarrow> jsnum list" where
  \<comment> \<open>The array \<^verbatim>\<open>args\<close> built from \<^verbatim>\<open>argsString\<close>.\<close>
  "functionArgs h getCellValue argsString =
     List.map_filter (\<lambda>cellId. numericValue h (getCellValue cellId)) (argCells argsString)"

definition processFunctionCall ::
  "host \<Rightarrow> (string \<Rightarrow> cellval) \<Rightarrow> string \<Rightarrow> nat \<times> string \<Rightarrow> string \<Rightarrow> string" where
  \<comment> \<open>The body of \<^verbatim>\<open>for (const match of functionMatches)\<close>, as a function of
      \<^verbatim>\<open>processedExpression\<close>.\<close>
  "processFunctionCall h getCellValue expression match processedExpression =
     (let functionName = function_name (snd match);
          functionCall = snd match;
          startIndex = fst match;
          endIndex0 = startIndex + length functionCall - 1;
          endIndex = findClosing (drop endIndex0 expression) endIndex0 0 endIndex0;
          fullFunctionCall = slice expression startIndex (endIndex + 1);
          argsString = slice expression (startIndex + length functionCall) endIndex;
          args = functionArgs h getCellValue argsString;
          result = evaluateFunction functionName args
      in replace_first fullFunctionCall (toString h result) processedExpression)"

fun substituteReferences ::
  "host \<Rightarrow> (string \<Rightarrow> cellval) \<Rightarrow> string list \<Rightarrow> string \<Rightarrow> (string \<times> string) + string" where
  \<comment> \<open>The loop \<^verbatim>\<open>for (const cellRef of dependencies)\<close> of a formula without function
      calls: \<open>Inr\<close> the expression after substitution, or \<open>Inl\<close> the cell and the value
      at which the loop returns the \<^verbatim>\<open>#VALUE!\<close> result.\<close>
  "substituteReferences h getCellValue [] processedExpression = Inr processedExpression"
| "substituteReferences h getCellValue (cellRef # rest) processedExpression =
     (case getCellValue cellRef of
        Undefined \<Rightarrow>
          substituteReferences h getCellValue rest (replace_all cellRef ''0'' processedExpression)
      | Str cellValue \<Rightarrow>
          (if isNaN (parseFloat h cellValue) then Inl (cellRef, cellValue)
           else substituteReferences h getCellValue rest
                  (replace_all cellRef (numberToString h (parseFloat h cellValue))
                     processedExpression))
      | Num cellValue \<Rightarrow>
          substituteReferences h getCellValue rest
            (replace_all cellRef (numberToString h cellValue) processedExpression))"

definition is_error_string :: "cellval \<Rightarrow> bool" where
  \<comment> \<open>\<^verbatim>\<open>typeof v === 'string' && v.startsWith('#')\<close>\<close>
  "is_error_string v = (case v of Str s \<Rightarrow> startsWith s ''#'' | _ \<Rightarrow> False)"

text \<open>
  The accessor is a total function and no operation of the \<^verbatim>\<open>try\<close> block of
  \<^verbatim>\<open>evaluateFormula\<close> throws in the model, so its \<^verbatim>\<open>catch\<close> branch is not a case of
  the model.
\<close>

definition evaluateFormula :: "host \<Rightarrow> string \<Rightarrow> (string \<Rightarrow> cellval) \<Rightarrow> EvaluationResult" where
  "evaluateFormula h formula getCellValue =
     (if \<not> startsWith formula ''='' then
        \<lparr>r_value = Str formula, r_error = None, r_dependencies = []\<rparr>
      else
        (let expression = drop 1 formula;
             dependencies = extractCellReferences expression
         in case filter (\<lambda>dep. \<not> isValidCellReference dep) dependencies of
              dep # others \<Rightarrow>
                \<lparr>r_value = Str ''#REF!'',
                 r_error = Some (''Invalid cell reference: '' @ dep),
                 r_dependencies = []\<rparr>
            | [] \<Rightarrow>
                (let functionMatches = matchAll FUNCTION_REGEX 0 expression in
                 if length functionMatches > 0 then
                   (let processedExpression =
                          fold (processFunctionCall h getCellValue expression)
                            functionMatches expression
                    in if startsWith processedExpression ''#'' then
                         \<lparr>r_value = Str processedExpression,
                          r_error = Some processedExpression,
                          r_dependencies = dependencies\<rparr>
                       else
                         (let finalResult = evaluateExpression h processedExpression
                          in if is_error_string finalResult then
                               \<lparr>r_value = finalResult,
                                r_error = Some (toString h finalResult),
                                r_dependencies = dependencies\<rparr>
                             else
                               \<lparr>r_value = finalResult, r_error = None,
                                r_dependencies = dependencies\<rparr>))
                 else
                   (case substituteReferences h getCellValue dependencies expression of
                      Inl (cellRef, cellValue) \<Rightarrow>
                        \<lparr>r_value = Str ''#VALUE!'',
                         r_error = Some (''Non-numeric value in cell '' @ cellRef @ '': ''
                                         @ cellValue),
                         r_dependencies = dependencies\<rparr>
                    | Inr processedExpression \<Rightarrow>
                        (let result = evaluateExpression h processedExpression
                         in case result of
                              Str r \<Rightarrow>
                                \<lparr>r_value = result,
                                 r_error = (if startsWith r ''#'' then Some r else None),
                                 r_dependencies = dependencies\<rparr>
                            | _ \<Rightarrow>
                                \<lparr>r_value = result, r_error = None,
                                 r_dependencies = dependencies\<rparr>)))))"

fun parenCheck :: "string \<Rightarrow> int \<Rightarrow> int option" where
  \<comment> \<open>The loop of \<^verbatim>\<open>validateFormula\<close> over the characters: \<open>None\<close> as soon as the
      count is negative, otherwise the final count.\<close>
  "parenCheck [] parenCount = Some parenCount"
| "parenCheck (ch # s) parenCount =
     (let c1 = (if ch = CHR ''('' then parenCount + 1 else parenCount);
          c2 = (if ch = CHR '')'' then c1 - 1 else c1)
      in if c2 < 0 then None else parenCheck s c2)"

definition validateFormula :: "string \<Rightarrow> SpreadsheetError option" where
  "validateFormula formula =
     (if \<not> startsWith formula ''='' then None
      else
        (let expression = drop 1 formula in
         case parenCheck expression 0 of
           None \<Rightarrow> Some (FormulaError ''Unmatched closing parenthesis'')
         | Some parenCount \<Rightarrow>
             if parenCount \<noteq> 0 then Some (FormulaError ''Unmatched opening parenthesis'')
             else
               (case filter (\<lambda>cellRef. \<not> isValidCellReference cellRef)
                       (extractCellReferences expression) of
                  [] \<Rightarrow> None
                | cellRef # others \<Rightarrow>
                    Some (ReferenceError (''Invalid cell reference: '' @ cellRef) cellRef))))"

section \<open>The engine (\<^verbatim>\<open>SpreadsheetEngine.ts\<close>)\<close>

text \<open>
  The state of \<^verbatim>\<open>createSpreadsheetEngine\<close>: the snapshot \<^verbatim>\<open>data\<close>, the dependency
  graph, and the number of calls of \<^verbatim>\<open>notifyChange\<close> so far (each call runs every
  registered listener once). The time \<^verbatim>\<open>new Date()\<close> reads is an argument \<open>now\<close>.
  Cell records are values: an exported snapshot does not share cell objects with the
  engine, where the shallow copy of the code shares them until one side replaces a record.
  The keys of \<^verbatim>\<open>data.cells\<close> are enumerated in insertion order, and a lookup finds
  stored records only: the members a plain object inherits (such as \<^verbatim>\<open>constructor\<close>)
  are not keys of the model, and no valid cell identifier is one. The version counter is
  an unbounded integer, where the counter of the code is a double that stops changing at
  \<open>2^53\<close>.
\<close>

record CellData =
  c_id :: string
  c_value :: cellval
  c_formula :: "string option"
  c_error :: "string option"
  c_dependents :: "string list"
  c_dependencies :: "string list"

record SpreadsheetData =
  d_cells :: "(string \<times> CellData) list"
  d_lastModified :: nat
  d_version :: int

record engine =
  data :: SpreadsheetData
  dependencyGraph :: DependencyGraph
  notifications :: nat

definition GRID_ROWS :: int where
  \<comment> \<open>Modelled from the spec: \<^verbatim>\<open>@shared/constants\<close> is missing; the address space has
      5 rows.\<close>
  "GRID_ROWS = 5"

definition GRID_COLS :: int where
  \<comment> \<open>Modelled from the spec: \<^verbatim>\<open>@shared/constants\<close> is missing; the address space has
      10 columns.\<close>
  "GRID_COLS = 10"

definition COLUMNS :: "string list" where
  \<comment> \<open>Modelled from the spec: \<^verbatim>\<open>@shared/constants\<close> is missing; the columns are the
      letters A to J.\<close>
  "COLUMNS = [''A'', ''B'', ''C'', ''D'', ''E'', ''F'', ''G'', ''H'', ''I'', ''J'']"

definition truthy :: "string option \<Rightarrow> bool" where
  \<comment> \<open>The test \<^verbatim>\<open>if (s)\<close> on a \<^verbatim>\<open>string | undefined\<close>: false on \<^verbatim>\<open>undefined\<close> and on
      the empty string.\<close>
  "truthy s = (case s of None \<Rightarrow> False | Some t \<Rightarrow> t \<noteq> [])"

definition isValidCellId :: "string \<Rightarrow> bool" where
  "isValidCellId cellId =
     (if isValidCellReference cellId then
        (let col = take 1 cellId;
             row = drop 1 cellId;
             colIndex = indexOf COLUMNS col;
             rowIndex = int (parseInt row) - 1
         in colIndex \<ge> 0 \<and> colIndex < GRID_COLS \<and> rowIndex \<ge> 0 \<and> rowIndex < GRID_ROWS)
      else False)"

definition in_address_space :: "string \<Rightarrow> bool" where
  \<comment> \<open>The address space in the words of the specification: a column letter, one of the 10
      columns A to J, followed by a row number, one of the 5 rows 1 to 5.\<close>
  "in_address_space cellId =
     (case cellId of
        [col, row] \<Rightarrow> col \<in> set ''ABCDEFGHIJ'' \<and> row \<in> set ''12345''
      | _ \<Rightarrow> False)"

definition get :: "engine \<Rightarrow> string \<Rightarrow> CellData option" where
  "get e cellId = map_of (d_cells (data e)) cellId"

definition getRawValue :: "engine \<Rightarrow> string \<Rightarrow> cellval" where
  "getRawValue e cellId =
     (case map_of (d_cells (data e)) cellId of
        None \<Rightarrow> Undefined
      | Some cell \<Rightarrow>
          if truthy (c_error cell) \<and> is_error_string (c_value cell) then c_value cell
          else if truthy (c_error cell) then
            (case c_error cell of Some err \<Rightarrow> Str err | None \<Rightarrow> Undefined)
          else c_value cell)"

definition getDisplayValue :: "host \<Rightarrow> engine \<Rightarrow> string \<Rightarrow> string" where
  "getDisplayValue h e cellId =
     (case map_of (d_cells (data e)) cellId of
        None \<Rightarrow> []
      | Some cell \<Rightarrow>
          if truthy (c_error cell) then (case c_error cell of Some err \<Rightarrow> err | None \<Rightarrow> [])
          else toString h (c_value cell))"

definition getFormula :: "engine \<Rightarrow> string \<Rightarrow> string option" where
  "getFormula e cellId =
     (case map_of (d_cells (data e)) cellId of None \<Rightarrow> None | Some cell \<Rightarrow> c_formula cell)"

definition notifyChange :: "engine \<Rightarrow> engine" where
  "notifyChange e = e\<lparr>notifications := notifications e + 1\<rparr>"

definition setCell :: "engine \<Rightarrow> string \<Rightarrow> CellData \<Rightarrow> engine" where
  \<comment> \<open>\<^verbatim>\<open>data.cells[cellId] = cell\<close>\<close>
  "setCell e cellId cell =
     e\<lparr>data := (data e)\<lparr>d_cells := AList.update cellId cell (d_cells (data e))\<rparr>\<rparr>"

definition rebuildDependencyGraph :: "engine \<Rightarrow> engine" where
  "rebuildDependencyGraph e =
     e\<lparr>dependencyGraph :=
          fold (\<lambda>entry g.
                  (case c_formula (snd entry) of
                     None \<Rightarrow> g
                   | Some formula \<Rightarrow>
                       if formula \<noteq> [] then
                         fold (\<lambda>dep g'. addDependency g' (fst entry) dep)
                           (p_dependencies (parseFormula formula)) g
                       else g))
               (d_cells (data e)) clear_graph\<rparr>"

definition recalculateCell :: "host \<Rightarrow> string \<Rightarrow> engine \<Rightarrow> engine" where
  \<comment> \<open>The body of the loop of \<^verbatim>\<open>recalculateDependents\<close>.\<close>
  "recalculateCell h dependentCell e =
     (case map_of (d_cells (data e)) dependentCell of
        None \<Rightarrow> e
      | Some cell \<Rightarrow>
          (case c_formula cell of
             None \<Rightarrow> e
           | Some formula \<Rightarrow>
               if formula \<noteq> [] then
                 (let result = evaluateFormula h formula (getRawValue e)
                  in setCell e dependentCell
                       (cell\<lparr>c_value := r_value result, c_error := r_error result\<rparr>))
               else e))"

definition recalculateDependents :: "host \<Rightarrow> engine \<Rightarrow> string \<Rightarrow> engine" where
  "recalculateDependents h e cellId =
     fold (recalculateCell h) (getAllDependents (dependencyGraph e) cellId) e"

definition oldDependents :: "CellData option \<Rightarrow> string list" where
  \<comment> \<open>\<^verbatim>\<open>oldCell?.dependents || []\<close>\<close>
  "oldDependents oldCell = (case oldCell of None \<Rightarrow> [] | Some c \<Rightarrow> c_dependents c)"

definition commitWrite :: "host \<Rightarrow> nat \<Rightarrow> engine \<Rightarrow> string \<Rightarrow> bool \<times> engine" where
  \<comment> \<open>The end of \<^verbatim>\<open>set\<close>, reached by an accepted write only: timestamp, version,
      recalculation, notification.\<close>
  "commitWrite h now e cellId =
     (let e1 = e\<lparr>data := (data e)\<lparr>d_lastModified := now, d_version := d_version (data e) + 1\<rparr>\<rparr>
      in (True, notifyChange (recalculateDependents h e1 cellId)))"

definition detachOldEdges :: "engine \<Rightarrow> string \<Rightarrow> engine" where
  \<comment> \<open>\<^verbatim>\<open>if (oldCell?.formula) dependencyGraph.removeDependencies(cellId)\<close>\<close>
  "detachOldEdges e cellId =
     (if truthy (case map_of (d_cells (data e)) cellId of None \<Rightarrow> None | Some c \<Rightarrow> c_formula c)
      then e\<lparr>dependencyGraph := removeDependencies (dependencyGraph e) cellId\<rparr>
      else e)"

definition errorCell :: "string \<Rightarrow> string \<Rightarrow> string \<Rightarrow> CellData option \<Rightarrow> CellData" where
  \<comment> \<open>The record stored when validation or the cycle check fails: no value, no
      dependencies.\<close>
  "errorCell cellId formula msg oldCell =
     \<lparr>c_id = cellId, c_value = Undefined, c_formula = Some formula, c_error = Some msg,
      c_dependents = oldDependents oldCell, c_dependencies = []\<rparr>"

definition setFormula ::
  "host \<Rightarrow> nat \<Rightarrow> engine \<Rightarrow> CellData option \<Rightarrow> string \<Rightarrow> string \<Rightarrow> bool \<times> engine" where
  \<comment> \<open>The branch \<^verbatim>\<open>if (formula)\<close> of \<^verbatim>\<open>set\<close>; \<open>e1\<close> is the engine once the old
      edges of the cell are removed.\<close>
  "setFormula h now e1 oldCell cellId formula =
     (case validateFormula formula of
        Some formulaError \<Rightarrow>
          (False, notifyChange
                    (setCell e1 cellId (errorCell cellId formula (message formulaError) oldCell)))
      | None \<Rightarrow>
          (let dependencies = p_dependencies (parseFormula formula) in
           case checkCircularReference (dependencyGraph e1) cellId dependencies of
             Some circularError \<Rightarrow>
               (False, notifyChange
                         (setCell e1 cellId
                            (errorCell cellId formula (message circularError) oldCell)))
           | None \<Rightarrow>
               (let e2 = e1\<lparr>dependencyGraph :=
                              fold (\<lambda>dep g. addDependency g cellId dep)
                                dependencies (dependencyGraph e1)\<rparr>;
                    result = evaluateFormula h formula (getRawValue e2);
                    e3 = setCell e2 cellId
                           \<lparr>c_id = cellId, c_value = r_value result,
                            c_formula = Some formula, c_error = r_error result,
                            c_dependents = oldDependents oldCell,
                            c_dependencies = dependencies\<rparr>
                in if truthy (r_error result) then (False, notifyChange e3)
                   else commitWrite h now e3 cellId)))"

definition set_cell ::
  "host \<Rightarrow> nat \<Rightarrow> engine \<Rightarrow> string \<Rightarrow> cellval \<Rightarrow> string option \<Rightarrow> bool \<times> engine" where
  \<comment> \<open>\<^verbatim>\<open>set(cellId, value, formula)\<close>\<close>
  "set_cell h now e cellId val formula =
     (if \<not> isValidCellId cellId then (False, e)
      else
        (let oldCell = map_of (d_cells (data e)) cellId;
             e1 = detachOldEdges e cellId
         in if truthy formula then
              setFormula h now e1 oldCell cellId (case formula of Some f \<Rightarrow> f | None \<Rightarrow> [])
            else
              commitWrite h now
                (setCell e1 cellId
                   \<lparr>c_id = cellId, c_value = val, c_formula = None, c_error = None,
                    c_dependents = oldDependents oldCell, c_dependencies = []\<rparr>) cellId))"

definition clear :: "nat \<Rightarrow> engine \<Rightarrow> engine" where
  "clear now e =
     notifyChange
       (e\<lparr>data := \<lparr>d_cells = [], d_lastModified = now, d_version = d_version (data e) + 1\<rparr>,
          dependencyGraph := clear_graph\<rparr>)"

definition clearCell :: "host \<Rightarrow> nat \<Rightarrow> engine \<Rightarrow> string \<Rightarrow> bool \<times> engine" where
  "clearCell h now e cellId =
     (if \<not> isValidCellId cellId then (False, e)
      else
        (case map_of (d_cells (data e)) cellId of
           None \<Rightarrow> (True, e)
         | Some cell \<Rightarrow>
             (let e1 = e\<lparr>dependencyGraph := removeDependencies (dependencyGraph e) cellId\<rparr>;
                  e2 = e1\<lparr>data := (data e1)\<lparr>d_cells := AList.delete cellId (d_cells (data e1))\<rparr>\<rparr>;
                  e3 = recalculateDependents h e2 cellId;
                  e4 = e3\<lparr>data := (data e3)\<lparr>d_lastModified := now,
                                              d_version := d_version (data e3) + 1\<rparr>\<rparr>
              in (True, notifyChange e4))))"

record EngineStats =
  s_totalCells :: nat
  s_formulaCells :: nat
  s_calculations :: nat

definition getStats :: "engine \<Rightarrow> EngineStats" where
  "getStats e =
     \<lparr>s_totalCells = length (d_cells (data e)),
      s_formulaCells = length (filter (\<lambda>entry. truthy (c_formula (snd entry))) (d_cells (data e))),
      s_calculations = totalDependencies (getStats_graph (dependencyGraph e))\<rparr>"

definition exportData :: "engine \<Rightarrow> SpreadsheetData" where
  "exportData e =
     \<lparr>d_cells = d_cells (data e), d_lastModified = d_lastModified (data e),
      d_version = d_version (data e)\<rparr>"

definition importData :: "engine \<Rightarrow> SpreadsheetData \<Rightarrow> engine" where
  "importData e newData =
     notifyChange
       (rebuildDependencyGraph
          (e\<lparr>data := \<lparr>d_cells = d_cells newData, d_lastModified = d_lastModified newData,
                       d_version = d_version newData\<rparr>\<rparr>))"

definition createSpreadsheetEngine :: "nat \<Rightarrow> SpreadsheetData option \<Rightarrow> engine" where
  "createSpreadsheetEngine now initialData =
     rebuildDependencyGraph
       \<lparr>data = (case initialData of
                  Some d \<Rightarrow> d
                | None \<Rightarrow> \<lparr>d_cells = [], d_lastModified = now, d_version = 1\<rparr>),
        dependencyGraph = createDependencyGraph,
        notifications = 0\<rparr>"

section \<open>A host for the examples\<close>

text \<open>
  The examples below run the engine on a host that agrees with JavaScript on the
  strings they use: decimal numerals without sign, fraction or leading zero, which it
  parses, prints and evaluates as the integers they denote, and strings that do not start
  like a number, which \<^verbatim>\<open>parseFloat\<close> maps to \<open>NaN\<close>. Its answers on other
  inputs are not used.
\<close>

definition decimal_literal :: "string \<Rightarrow> bool" where
  "decimal_literal s = (s \<noteq> [] \<and> list_all isDigit s \<and> (length s = 1 \<or> take 1 s \<noteq> ''0''))"

definition sample_host :: host where
  "sample_host =
     \<lparr>parseFloat = (\<lambda>s. if decimal_literal s then Fin (of_nat (parseInt s)) else NaN),
      numberToString =
        (\<lambda>n. case n of Fin r \<Rightarrow> numeral_string (nat \<lfloor>r\<rfloor>) | _ \<Rightarrow> ''NaN''),
      runFunction =
        (\<lambda>body. if startsWith body ''return '' \<and> decimal_literal (drop 7 body)
                 then ReturnedNumber (Fin (of_nat (parseInt (drop 7 body)))) else Thrown)\<rparr>"

definition empty_engine :: engine where
  \<comment> \<open>A fresh engine, created at time 0 without initial data.\<close>
  "empty_engine = createSpreadsheetEngine 0 None"

definition linked_engine :: engine where
  \<comment> \<open>\<^verbatim>\<open>set('A1', 10); set('B1', undefined, '=A1')\<close> on a fresh engine.\<close>
  "linked_engine =
     snd (set_cell sample_host 2
            (snd (set_cell sample_host 1 empty_engine ''A1'' (Num (Fin 10)) None))
            ''B1'' Undefined (Some ''=A1''))"

definition cycle_engine :: engine where
  \<comment> \<open>\<^verbatim>\<open>set('A1', undefined, '=B1'); set('B1', undefined, '=A1')\<close> on a fresh engine.\<close>
  "cycle_engine =
     snd (set_cell sample_host 2
            (snd (set_cell sample_host 1 empty_engine ''A1'' Undefined (Some ''=B1'')))
            ''B1'' Undefined (Some ''=A1''))"

definition diamond_graph :: DependencyGraph where
  \<comment> \<open>The edges of \<^verbatim>\<open>B1 = A1\<close>, \<^verbatim>\<open>C1 = A1\<close> and \<^verbatim>\<open>D1 = B1 + C1\<close>.\<close>
  "diamond_graph =
     addDependency (addDependency (addDependency (addDependency createDependencyGraph
       ''B1'' ''A1'') ''C1'' ''A1'') ''D1'' ''B1'') ''D1'' ''C1''"

definition dependents_rel :: "DependencyGraph \<Rightarrow> (string \<times> string) set" where
  \<comment> \<open>The direct-dependent edges: \<open>(x, y)\<close> when \<open>y\<close> is a direct dependent of \<open>x\<close>.\<close>
  "dependents_rel g = {(x, y). y \<in> set (getDependents g x)}"

definition after_first :: "nat \<Rightarrow> engine" where
  \<comment> \<open>The engine after \<^verbatim>\<open>set('A1', undefined, '=B1')\<close> at time \<open>t1\<close> on a fresh engine.\<close>
  "after_first t1 =
    \<lparr>data = \<lparr>d_cells =
        [(''A1'', \<lparr>c_id = ''A1'', c_value = Num (Fin 0), c_formula = Some ''=B1'',
                   c_error = None, c_dependents = [], c_dependencies = [''B1'']\<rparr>)],
        d_lastModified = t1, d_version = 2\<rparr>,
     dependencyGraph = \<lparr>g_dependencies = [(''A1'', [''B1''])],
                         g_dependents = [(''B1'', [''A1''])]\<rparr>,
     notifications = 1\<rparr>"

definition cycle_message :: string where
  "cycle_message = ''Circular reference detected: B1'' @ arrow @ ''A1'' @ arrow @ ''B1''"

definition after_second :: "nat \<Rightarrow> engine" where
  \<comment> \<open>Then after the rejected \<^verbatim>\<open>set('B1', undefined, '=A1')\<close>.\<close>
  "after_second t1 =
    \<lparr>data = \<lparr>d_cells =
        [(''A1'', \<lparr>c_id = ''A1'', c_value = Num (Fin 0), c_formula = Some ''=B1'',
                   c_error = None, c_dependents = [], c_dependencies = [''B1'']\<rparr>),
         (''B1'', \<lparr>c_id = ''B1'', c_value = Undefined, c_formula = Some ''=A1'',
                   c_error = Some cycle_message, c_dependents = [], c_dependencies = []\<rparr>)],
        d_lastModified = t1, d_version = 2\<rparr>,
     dependencyGraph = \<lparr>g_dependencies = [(''A1'', [''B1''])],
                         g_dependents = [(''B1'', [''A1''])]\<rparr>,
     notifications = 2\<rparr>"

definition after_third :: "nat \<Rightarrow> engine" where
  \<comment> \<open>Then after \<^verbatim>\<open>set('B1', 100)\<close> at time \<open>t3\<close>.\<close>
  "after_third t3 =
    \<lparr>data = \<lparr>d_cells =
        [(''A1'', \<lparr>c_id = ''A1'', c_value = Num (Fin 100), c_formula = Some ''=B1'',
                   c_error = None, c_dependents = [], c_dependencies = [''B1'']\<rparr>),
         (''B1'', \<lparr>c_id = ''B1'', c_value = Num (Fin 100), c_formula = None,
                   c_error = None, c_dependents = [], c_dependencies = []\<rparr>)],
        d_lastModified = t3, d_version = 3\<rparr>,
     dependencyGraph = \<lparr>g_dependencies = [(''A1'', [''B1''])],
                         g_dependents = [(''B1'', [''A1''])]\<rparr>,
     notifications = 3\<rparr>"

definition sample_store :: graph_store where
  \<comment> \<open>The graph with the one edge of \<^verbatim>\<open>A1 = B1\<close>, as a store of objects.\<close>
  "sample_store =
     \<lparr>objects = [MapObject [(''A1'', 2)], MapObject [(''B1'', 3)],
                 SetObject [''B1''], SetObject [''A1'']],
      dependencies_ref = 0, dependents_ref = 1\<rparr>"

section \<open>Properties of the dependency graph\<close>

subsection \<open>The cells listed by \<^verbatim>\<open>getAllDependents\<close>\<close>

lemma forDependents_visited_mono:
  "set (fst st) \<subseteq> set (fst (forDependents g ds st))"
  by (induction g ds st rule: forDependents.induct) auto

lemma dfs_union_step:
  assumes A: "A = X \<union> D d \<union> (\<Union>x\<in>VA - insert d V. D x)"
    and B: "B = A \<union> R \<union> (\<Union>x\<in>VB - VA. D x)"
    and sub: "insert d V \<subseteq> VA" "VA \<subseteq> VB" and d: "d \<notin> V"
  shows "B = X \<union> R \<union> (\<Union>x\<in>VB - V. D x)"
proof -
  have "VB - V = insert d (VA - insert d V) \<union> (VB - VA)"
    using sub d by blast
  then have "(\<Union>x\<in>VB - V. D x) = D d \<union> (\<Union>x\<in>VA - insert d V. D x) \<union> (\<Union>x\<in>VB - VA. D x)"
    by blast
  then show ?thesis
    by (subst B, subst A) blast
qed

text \<open>
  The cells pushed by the loop are the cells it was given and the direct dependents of
  every cell it newly marked as visited.
\<close>

lemma forDependents_result_set:
  "set (snd (forDependents g ds st)) =
     set (snd st) \<union> set ds \<union>
     (\<Union>x \<in> set (fst (forDependents g ds st)) - set (fst st). set (getDependents g x))"
proof (induction g ds st rule: forDependents.induct)
  case (1 g st)
  then show ?case by simp
next
  case (2 g d rest visited result)
  show ?case
  proof (cases "d \<in> set visited")
    case True
    with 2(1) show ?thesis by auto
  next
    case False
    define inner where "inner = forDependents g (getDependents g d) (d # visited, result @ [d])"
    define outer where "outer = forDependents g rest inner"
    have eq: "forDependents g (d # rest) (visited, result) = outer"
      using False by (simp add: inner_def outer_def)
    have m1: "insert d (set visited) \<subseteq> set (fst inner)"
      using forDependents_visited_mono[of "(d # visited, result @ [d])"] by (simp add: inner_def)
    have m2: "set (fst inner) \<subseteq> set (fst outer)"
      unfolding outer_def by (rule forDependents_visited_mono)
    have ih1: "set (snd inner) = (set result \<union> {d}) \<union> set (getDependents g d) \<union>
        (\<Union>x\<in>set (fst inner) - insert d (set visited). set (getDependents g x))"
      using 2(2)[OF False] unfolding inner_def[symmetric] by simp
    have ih2: "set (snd outer) = set (snd inner) \<union> set rest \<union>
        (\<Union>x\<in>set (fst outer) - set (fst inner). set (getDependents g x))"
      using 2(3)[OF False] unfolding inner_def[symmetric] outer_def[symmetric] by simp
    have "set (snd outer) = (set result \<union> {d}) \<union> set rest \<union>
        (\<Union>x\<in>set (fst outer) - set visited. set (getDependents g x))"
      by (rule dfs_union_step[OF ih1 ih2 m1 m2 False])
    then show ?thesis unfolding eq by auto
  qed
qed

text \<open>Every cell the loop is given or pushes ends up marked as visited.\<close>

lemma forDependents_visited_set:
  "set (fst (forDependents g ds st)) =
     set (fst st) \<union> set ds \<union>
     (\<Union>x \<in> set (fst (forDependents g ds st)) - set (fst st). set (getDependents g x))"
proof (induction g ds st rule: forDependents.induct)
  case (1 g st)
  then show ?case by simp
next
  case (2 g d rest visited result)
  show ?case
  proof (cases "d \<in> set visited")
    case True
    with 2(1) show ?thesis by auto
  next
    case False
    define inner where "inner = forDependents g (getDependents g d) (d # visited, result @ [d])"
    define outer where "outer = forDependents g rest inner"
    have eq: "forDependents g (d # rest) (visited, result) = outer"
      using False by (simp add: inner_def outer_def)
    have m1: "insert d (set visited) \<subseteq> set (fst inner)"
      using forDependents_visited_mono[of "(d # visited, result @ [d])"] by (simp add: inner_def)
    have m2: "set (fst inner) \<subseteq> set (fst outer)"
      unfolding outer_def by (rule forDependents_visited_mono)
    have ih1: "set (fst inner) = (set visited \<union> {d}) \<union> set (getDependents g d) \<union>
        (\<Union>x\<in>set (fst inner) - insert d (set visited). set (getDependents g x))"
      using 2(2)[OF False] unfolding inner_def[symmetric] by simp
    have ih2: "set (fst outer) = set (fst inner) \<union> set rest \<union>
        (\<Union>x\<in>set (fst outer) - set (fst inner). set (getDependents g x))"
      using 2(3)[OF False] unfolding inner_def[symmetric] outer_def[symmetric] by simp
    have "set (fst outer) = (set visited \<union> {d}) \<union> set rest \<union>
        (\<Union>x\<in>set (fst outer) - set visited. set (getDependents g x))"
      by (rule dfs_union_step[OF ih1 ih2 m1 m2 False])
    then show ?thesis unfolding eq by auto
  qed
qed

text \<open>Every cell the loop pushes is reachable from a cell it was given.\<close>

lemma forDependents_result_sound:
  "set (snd (forDependents g ds st)) \<subseteq> set (snd st) \<union> (dependents_rel g)\<^sup>* `` set ds"
proof (induction g ds st rule: forDependents.induct)
  case (1 g st)
  then show ?case by simp
next
  case (2 g d rest visited result)
  show ?case
  proof (cases "d \<in> set visited")
    case True
    with 2(1) show ?thesis by auto
  next
    case False
    define inner where "inner = forDependents g (getDependents g d) (d # visited, result @ [d])"
    define outer where "outer = forDependents g rest inner"
    have eq: "forDependents g (d # rest) (visited, result) = outer"
      using False by (simp add: inner_def outer_def)
    have step: "(dependents_rel g)\<^sup>* `` set (getDependents g d) \<subseteq> (dependents_rel g)\<^sup>* `` {d}"
      by (auto simp: dependents_rel_def intro: converse_rtrancl_into_rtrancl)
    have self: "d \<in> (dependents_rel g)\<^sup>* `` {d}" by simp
    have ih1: "set (snd inner) \<subseteq>
        insert d (set result) \<union> (dependents_rel g)\<^sup>* `` set (getDependents g d)"
      using 2(2)[OF False] unfolding inner_def[symmetric] by simp
    have ih2: "set (snd outer) \<subseteq> set (snd inner) \<union> (dependents_rel g)\<^sup>* `` set rest"
      using 2(3)[OF False] unfolding inner_def[symmetric] outer_def[symmetric] by simp
    have "set (snd outer) \<subseteq>
        set result \<union> ((dependents_rel g)\<^sup>* `` {d} \<union> (dependents_rel g)\<^sup>* `` set rest)"
      using ih1 ih2 step self by blast
    also have "(dependents_rel g)\<^sup>* `` {d} \<union> (dependents_rel g)\<^sup>* `` set rest =
        (dependents_rel g)\<^sup>* `` set (d # rest)"
      by auto
    finally show ?thesis unfolding eq by simp
  qed
qed

text \<open>The cells listed are exactly the transitive dependents.\<close>

lemma getAllDependents_set:
  "set (getAllDependents g c) = {d. (c, d) \<in> (dependents_rel g)\<^sup>+}"
proof -
  define F where "F = forDependents g (getDependents g c) ([c], [])"
  have res: "getAllDependents g c = snd F"
    by (simp add: getAllDependents_def collectDependents_def F_def)
  have R: "set (snd F) = set (getDependents g c) \<union>
             (\<Union>x\<in>set (fst F) - {c}. set (getDependents g x))"
    using forDependents_result_set[of g "getDependents g c" "([c], [])"]
    unfolding F_def[symmetric] by simp
  have V: "set (fst F) = {c} \<union> set (getDependents g c) \<union>
             (\<Union>x\<in>set (fst F) - {c}. set (getDependents g x))"
    using forDependents_visited_set[of g "getDependents g c" "([c], [])"]
    unfolding F_def[symmetric] by simp
  have VR: "set (fst F) = insert c (set (snd F))"
    by (subst V, subst R) blast
  have closed: "\<And>x y. x \<in> insert c (set (snd F)) \<Longrightarrow> y \<in> set (getDependents g x)
                  \<Longrightarrow> y \<in> set (snd F)"
    by (subst R, unfold VR) blast
  have sound: "set (snd F) \<subseteq> (dependents_rel g)\<^sup>* `` set (getDependents g c)"
    using forDependents_result_sound[of g "getDependents g c" "([c], [])"]
    unfolding F_def[symmetric] by simp
  have "\<And>d. (c, d) \<in> (dependents_rel g)\<^sup>+ \<Longrightarrow> d \<in> set (snd F)"
  proof -
    fix d assume "(c, d) \<in> (dependents_rel g)\<^sup>+"
    then show "d \<in> set (snd F)"
    proof (induction rule: trancl_induct)
      case (base y)
      then show ?case using closed[of c y] by (simp add: dependents_rel_def)
    next
      case (step y z)
      then show ?case using closed[of y z] by (simp add: dependents_rel_def)
    qed
  qed
  moreover have "\<And>d. d \<in> set (snd F) \<Longrightarrow> (c, d) \<in> (dependents_rel g)\<^sup>+"
  proof -
    fix d assume "d \<in> set (snd F)"
    with sound obtain y where y: "y \<in> set (getDependents g c)" "(y, d) \<in> (dependents_rel g)\<^sup>*"
      by blast
    then have "(c, y) \<in> dependents_rel g" by (simp add: dependents_rel_def)
    with y(2) show "(c, d) \<in> (dependents_rel g)\<^sup>+" by (simp add: rtrancl_into_trancl2)
  qed
  ultimately show ?thesis unfolding res by blast
qed

text \<open>
  The loop pushes the cells it was given, and the direct dependents of every cell it newly
  marked as visited, once for each such cell.
\<close>

lemma dfs_sum_step:
  fixes f :: "'a \<Rightarrow> 'b multiset"
  assumes A: "A = X + f d + (\<Sum>x\<in>VA - insert d V. f x)"
    and B: "B = A + R + (\<Sum>x\<in>VB - VA. f x)"
    and sub: "insert d V \<subseteq> VA" "VA \<subseteq> VB" and d: "d \<notin> V" and fin: "finite VB"
  shows "B = X + R + (\<Sum>x\<in>VB - V. f x)"
proof -
  define U where "U = (VA - insert d V) \<union> (VB - VA)"
  have split: "VB - V = insert d U"
    using sub d unfolding U_def by blast
  have fin': "finite (VA - insert d V)" "finite (VB - VA)"
    using fin sub by (auto intro: finite_subset)
  have disj: "(VA - insert d V) \<inter> (VB - VA) = {}" by blast
  have U: "sum f U = sum f (VA - insert d V) + sum f (VB - VA)"
    unfolding U_def using fin' disj by (rule sum.union_disjoint)
  have "finite U" "d \<notin> U" using fin' sub unfolding U_def by auto
  then have "sum f (insert d U) = f d + sum f U" by (rule sum.insert)
  then have "sum f (VB - V) = f d + (sum f (VA - insert d V) + sum f (VB - VA))"
    unfolding split U .
  then show ?thesis by (simp add: A B ac_simps)
qed

lemma forDependents_result_mset:
  "mset (snd (forDependents g ds st)) =
     mset (snd st) + mset ds +
     (\<Sum>x \<in> set (fst (forDependents g ds st)) - set (fst st). mset (getDependents g x))"
proof (induction g ds st rule: forDependents.induct)
  case (1 g st)
  then show ?case by simp
next
  case (2 g d rest visited result)
  show ?case
  proof (cases "d \<in> set visited")
    case True
    with 2(1) show ?thesis by simp
  next
    case False
    define inner where "inner = forDependents g (getDependents g d) (d # visited, result @ [d])"
    define outer where "outer = forDependents g rest inner"
    have eq: "forDependents g (d # rest) (visited, result) = outer"
      using False by (simp add: inner_def outer_def)
    have m1: "insert d (set visited) \<subseteq> set (fst inner)"
      using forDependents_visited_mono[of "(d # visited, result @ [d])"] by (simp add: inner_def)
    have m2: "set (fst inner) \<subseteq> set (fst outer)"
      unfolding outer_def by (rule forDependents_visited_mono)
    have ih1: "mset (snd inner) = (mset result + {#d#}) + mset (getDependents g d) +
        (\<Sum>x\<in>set (fst inner) - insert d (set visited). mset (getDependents g x))"
      using 2(2)[OF False] unfolding inner_def[symmetric] by simp
    have ih2: "mset (snd outer) = mset (snd inner) + mset rest +
        (\<Sum>x\<in>set (fst outer) - set (fst inner). mset (getDependents g x))"
      using 2(3)[OF False] unfolding inner_def[symmetric] outer_def[symmetric] by simp
    have "mset (snd outer) = (mset result + {#d#}) + mset rest +
        (\<Sum>x\<in>set (fst outer) - set visited. mset (getDependents g x))"
      by (rule dfs_sum_step[OF ih1 ih2 m1 m2 False]) simp
    then show ?thesis unfolding eq by simp
  qed
qed

lemma getAllDependents_mset:
  "mset (getAllDependents g c) =
     (\<Sum>x \<in> insert c {d. (c, d) \<in> (dependents_rel g)\<^sup>+}. mset (getDependents g x))"
proof -
  define F where "F = forDependents g (getDependents g c) ([c], [])"
  have res: "getAllDependents g c = snd F"
    by (simp add: getAllDependents_def collectDependents_def F_def)
  have V: "set (fst F) = {c} \<union> set (getDependents g c) \<union>
             (\<Union>x\<in>set (fst F) - {c}. set (getDependents g x))"
    using forDependents_visited_set[of g "getDependents g c" "([c], [])"]
    unfolding F_def[symmetric] by simp
  have R: "set (snd F) = set (getDependents g c) \<union>
             (\<Union>x\<in>set (fst F) - {c}. set (getDependents g x))"
    using forDependents_result_set[of g "getDependents g c" "([c], [])"]
    unfolding F_def[symmetric] by simp
  have VR: "set (fst F) = insert c (set (snd F))"
    by (subst V, subst R) blast
  have M: "mset (snd F) = mset (getDependents g c) +
             (\<Sum>x\<in>set (fst F) - {c}. mset (getDependents g x))"
    using forDependents_result_mset[of g "getDependents g c" "([c], [])"]
    unfolding F_def[symmetric] by simp
  have sets: "insert c {d. (c, d) \<in> (dependents_rel g)\<^sup>+} = insert c (set (fst F) - {c})"
    using getAllDependents_set[of g c] unfolding res VR by auto
  have "sum (\<lambda>x. mset (getDependents g x)) (insert c (set (fst F) - {c}))
      = mset (getDependents g c) + sum (\<lambda>x. mset (getDependents g x)) (set (fst F) - {c})"
    by (rule sum.insert) auto
  then have "(\<Sum>x \<in> insert c {d. (c, d) \<in> (dependents_rel g)\<^sup>+}. mset (getDependents g x))
      = mset (getDependents g c) + (\<Sum>x\<in>set (fst F) - {c}. mset (getDependents g x))"
    unfolding sets .
  with M show ?thesis unfolding res by simp
qed

text \<open>
  The list of the code is the list of the traversal with a stack, and every cell of that
  list is discovered from a cell listed before it, or is on the initial stack.
\<close>

lemma forDependents_discovery_order:
  "snd (forDependents g ds st) @ discovery_order g stack (fst (forDependents g ds st))
     = snd st @ discovery_order g (ds @ stack) (fst st)"
proof (induction g ds st arbitrary: stack rule: forDependents.induct)
  case (1 g st)
  then show ?case by simp
next
  case (2 g d rest visited result)
  show ?case
  proof (cases "d \<in> set visited")
    case True
    with 2(1)[OF True, of stack] show ?thesis by simp
  next
    case False
    from 2(3)[OF False, of stack] 2(2)[OF False, of "rest @ stack"] False
    show ?thesis by simp
  qed
qed

lemma getAllDependents_discovery_order:
  "getAllDependents g c = discovery_order g (getDependents g c) [c]"
  using forDependents_discovery_order[of g "getDependents g c" "([c], [])" "[]"]
  by (simp add: getAllDependents_def collectDependents_def)

lemma discovery_order_parent:
  "discovery_order g stack visited = ys @ x # zs \<Longrightarrow>
     x \<in> set stack \<or> (\<exists>y\<in>set ys. x \<in> set (getDependents g y))"
proof (induction g stack visited arbitrary: ys rule: discovery_order.induct)
  case (1 g visited)
  then show ?case by simp
next
  case (2 g cell stack visited)
  show ?case
  proof (cases ys)
    case Nil
    with 2(3) show ?thesis by simp
  next
    case (Cons y ys')
    with 2(3) have y: "y = cell" by simp
    show ?thesis
    proof (cases "cell \<in> set visited")
      case True
      with 2(3) Cons have "discovery_order g stack visited = ys' @ x # zs" by simp
      from 2(1)[OF True this] Cons show ?thesis by auto
    next
      case False
      with 2(3) Cons
      have "discovery_order g (getDependents g cell @ stack) (cell # visited) = ys' @ x # zs"
        by auto
      from 2(2)[OF False this] Cons y show ?thesis by auto
    qed
  qed
qed

text \<open>
  C2, as the code has it. For every graph state and every cell \<open>c\<close>, the cells listed by
  \<^verbatim>\<open>getAllDependents(c)\<close> are exactly the transitive dependents of \<open>c\<close>: the cells
  reachable from \<open>c\<close> along one or more direct-dependent edges. The dependents of a
  cell are expanded once, but a cell is pushed each time it is met as a direct dependent:
  the list holds the direct dependents of \<open>c\<close> and of every transitive dependent of
  \<open>c\<close>, so a cell reachable along two paths can be listed twice. The list is in
  discovery order: it is the list of the depth-first traversal with a stack that starts
  from the direct dependents of \<open>c\<close> with \<open>c\<close> visited, and every cell in it is a
  direct dependent of \<open>c\<close> or of a cell listed before it.
\<close>

theorem getAllDependents_transitive_dependents:
  "set (getAllDependents g c) = {d. (c, d) \<in> (dependents_rel g)\<^sup>+}
   \<and> mset (getAllDependents g c) =
       (\<Sum>x \<in> insert c {d. (c, d) \<in> (dependents_rel g)\<^sup>+}. mset (getDependents g x))
   \<and> getAllDependents g c = discovery_order g (getDependents g c) [c]
   \<and> (\<forall>ys x zs. getAllDependents g c = ys @ x # zs \<longrightarrow>
         x \<in> set (getDependents g c) \<or> (\<exists>y\<in>set ys. x \<in> set (getDependents g y)))"
  using getAllDependents_set getAllDependents_mset getAllDependents_discovery_order
        discovery_order_parent[of g "getDependents g c" "[c]"]
  by metis

theorem getAllDependents_transitive_dependents_witness:
  "getAllDependents diamond_graph ''A1'' = discovery_order diamond_graph [''B1'', ''C1''] [''A1'']
   \<and> (''D1'' \<in> set [''B1'', ''C1'']
        \<or> (\<exists>y\<in>set [''B1'']. ''D1'' \<in> set (getDependents diamond_graph y)))"
proof -
  have l: "getAllDependents diamond_graph ''A1'' = [''B1''] @ ''D1'' # [''C1'', ''D1'']"
    by code_simp
  have d: "getDependents diamond_graph ''A1'' = [''B1'', ''C1'']" by code_simp
  from getAllDependents_transitive_dependents[of diamond_graph "''A1''"] l
  have "getAllDependents diamond_graph ''A1''
          = discovery_order diamond_graph (getDependents diamond_graph ''A1'') [''A1'']"
    and "''D1'' \<in> set (getDependents diamond_graph ''A1'')
          \<or> (\<exists>y\<in>set [''B1'']. ''D1'' \<in> set (getDependents diamond_graph y))"
    by blast+
  then show ?thesis unfolding d by blast
qed

text \<open>
  In the diamond \<^verbatim>\<open>B1 = A1\<close>, \<^verbatim>\<open>C1 = A1\<close>, \<^verbatim>\<open>D1 = B1 + C1\<close> the cell \<^verbatim>\<open>D1\<close> is
  reachable from \<^verbatim>\<open>A1\<close> along two paths, and is listed twice.
\<close>

theorem getAllDependents_diamond_lists_twice:
  "getAllDependents diamond_graph ''A1'' = [''B1'', ''D1'', ''C1'', ''D1'']
   \<and> \<not> distinct (getAllDependents diamond_graph ''A1'')"
  by code_simp

subsection \<open>\<^verbatim>\<open>checkCircularReference\<close> leaves the graph as it is\<close>

lemma map_update_values:
  "map (\<lambda>entry. (fst entry, f (snd entry))) (AList.update k v m)
     = AList.update k (f v) (map (\<lambda>entry. (fst entry, f (snd entry))) m)"
  by (induction m) auto

text \<open>
  C5. For every graph state (a well-formed store), every candidate cell and every list of
  candidate dependencies, \<^verbatim>\<open>checkCircularReference\<close> leaves the graph unchanged,
  whether or not it reports a cycle: every object that existed before the call, so the
  forward map, the reverse map and every set they refer to, is the same after it, and the
  maps read the same. The call only allocates. Its result is the result of the function on
  graph values.
\<close>

theorem checkCircularReference_store_frame:
  assumes wf: "well_formed S"
  shows "take (length (objects S)) (objects (snd (checkCircularReference_store S cell deps)))
           = objects S
       \<and> dependencies_ref (snd (checkCircularReference_store S cell deps)) = dependencies_ref S
       \<and> dependents_ref (snd (checkCircularReference_store S cell deps)) = dependents_ref S
       \<and> graph_of (snd (checkCircularReference_store S cell deps)) = graph_of S
       \<and> fst (checkCircularReference_store S cell deps)
           = checkCircularReference (graph_of S) cell deps"
proof -
  define n where "n = length (objects S)"
  define S3 where "S3 = snd (checkCircularReference_store S cell deps)"
  have objs: "objects S3 = objects S @
                [MapObject (AList.update cell (Suc n) (map_entries S (dependencies_ref S))),
                 SetObject (new_Set deps)]"
    by (simp add: S3_def checkCircularReference_store_def allocate_def Map_set_def Let_def
                  map_entries_def n_def list_update_append nth_append)
  have refs: "dependencies_ref S3 = dependencies_ref S" "dependents_ref S3 = dependents_ref S"
    by (simp_all add: S3_def checkCircularReference_store_def allocate_def Map_set_def Let_def)
  have old_map: "map_entries S3 r = map_entries S r" if "r < n" for r
    using that by (simp add: map_entries_def objs n_def nth_append)
  have old_set: "set_elements S3 r = set_elements S r" if "r < n" for r
    using that by (simp add: set_elements_def objs n_def nth_append)
  have read_old: "read_map S3 r = read_map S r"
    if "r < n" "list_all (\<lambda>entry. snd entry < n) (map_entries S r)" for r
    using that by (simp add: read_map_def old_map old_set list_all_iff)
  have g: "graph_of S3 = graph_of S"
    using wf by (simp add: graph_of_def refs read_old well_formed_def n_def)
  have temp_entries: "map_entries S3 n
      = AList.update cell (Suc n) (map_entries S (dependencies_ref S))"
    by (simp add: map_entries_def objs n_def nth_append)
  have new_set: "set_elements S3 (Suc n) = new_Set deps"
    by (simp add: set_elements_def objs n_def nth_append)
  have shared: "map (\<lambda>entry. (fst entry, set_elements S3 (snd entry)))
                  (map_entries S (dependencies_ref S))
        = map (\<lambda>entry. (fst entry, set_elements S (snd entry)))
            (map_entries S (dependencies_ref S))"
    using wf by (simp add: well_formed_def list_all_iff old_set n_def)
  have temp: "read_map S3 n
      = AList.update cell (new_Set deps) (g_dependencies (graph_of S))"
    unfolding read_map_def temp_entries map_update_values new_set graph_of_def shared by simp
  have res: "fst (checkCircularReference_store S cell deps)
      = cycleError (hasCycle (read_map S3 n) cell ([], [], [])) cell"
    by (simp add: S3_def checkCircularReference_store_def allocate_def Let_def n_def)
  show ?thesis
    unfolding S3_def[symmetric]
    using g refs res temp by (simp add: objs n_def checkCircularReference_def)
qed

theorem checkCircularReference_store_frame_witness:
  "graph_of (snd (checkCircularReference_store sample_store ''B1'' [''A1''])) = graph_of sample_store
   \<and> fst (checkCircularReference_store sample_store ''B1'' [''A1'']) \<noteq> None
   \<and> graph_of (snd (checkCircularReference_store sample_store ''C1'' [''A1''])) = graph_of sample_store
   \<and> fst (checkCircularReference_store sample_store ''C1'' [''A1'']) = None"
proof -
  have wf: "well_formed sample_store" by code_simp
  have a: "checkCircularReference (graph_of sample_store) ''B1'' [''A1''] \<noteq> None" by code_simp
  have b: "checkCircularReference (graph_of sample_store) ''C1'' [''A1''] = None" by code_simp
  from checkCircularReference_store_frame[OF wf, of "''B1''" "[''A1'']"]
       checkCircularReference_store_frame[OF wf, of "''C1''" "[''A1'']"] a b
  show ?thesis by simp
qed

section \<open>Properties of the engine\<close>

subsection \<open>Identifiers outside the address space\<close>

text \<open>
  The test of the engine accepts exactly the identifiers of the address space.
\<close>

lemma column_letters:
  "(65 \<le> (of_char c :: nat) \<and> (of_char c :: nat) \<le> 74) = (c \<in> set ''ABCDEFGHIJ'')"
proof
  assume range: "65 \<le> (of_char c :: nat) \<and> (of_char c :: nat) \<le> 74"
  define n where "n = (of_char c :: nat)"
  have c: "c = char_of n" by (simp add: n_def)
  have codes: "char_of (65::nat) = CHR ''A''" "char_of (66::nat) = CHR ''B''"
    "char_of (67::nat) = CHR ''C''" "char_of (68::nat) = CHR ''D''"
    "char_of (69::nat) = CHR ''E''" "char_of (70::nat) = CHR ''F''"
    "char_of (71::nat) = CHR ''G''" "char_of (72::nat) = CHR ''H''"
    "char_of (73::nat) = CHR ''I''" "char_of (74::nat) = CHR ''J''"
    by code_simp+
  from range have "n = 65 \<or> n = 66 \<or> n = 67 \<or> n = 68 \<or> n = 69 \<or> n = 70 \<or> n = 71 \<or> n = 72
      \<or> n = 73 \<or> n = 74"
    unfolding n_def by arith
  then show "c \<in> set ''ABCDEFGHIJ''" unfolding c using codes by auto
next
  assume "c \<in> set ''ABCDEFGHIJ''"
  then show "65 \<le> (of_char c :: nat) \<and> (of_char c :: nat) \<le> 74" by auto
qed

lemma row_digits:
  "(49 \<le> (of_char c :: nat) \<and> (of_char c :: nat) \<le> 53) = (c \<in> set ''12345'')"
proof
  assume range: "49 \<le> (of_char c :: nat) \<and> (of_char c :: nat) \<le> 53"
  define n where "n = (of_char c :: nat)"
  have c: "c = char_of n" by (simp add: n_def)
  have codes: "char_of (49::nat) = CHR ''1''" "char_of (50::nat) = CHR ''2''"
    "char_of (51::nat) = CHR ''3''" "char_of (52::nat) = CHR ''4''"
    "char_of (53::nat) = CHR ''5''"
    by code_simp+
  from range have "n = 49 \<or> n = 50 \<or> n = 51 \<or> n = 52 \<or> n = 53"
    unfolding n_def by arith
  then show "c \<in> set ''12345''" unfolding c using codes by auto
next
  assume "c \<in> set ''12345''"
  then show "49 \<le> (of_char c :: nat) \<and> (of_char c :: nat) \<le> 53" by auto
qed

lemma isValidCellReference_address_space:
  "isValidCellReference cellId = in_address_space cellId"
proof (cases "\<exists>col row. cellId = [col, row]")
  case True
  then obtain col row where id: "cellId = [col, row]" by blast
  have "isValidCellReference [col, row] =
          ((65 \<le> (of_char col :: nat) \<and> (of_char col :: nat) \<le> 74) \<and>
           (49 \<le> (of_char row :: nat) \<and> (of_char row :: nat) \<le> 53))"
    by (simp add: isValidCellReference_def)
  also have "\<dots> = (col \<in> set ''ABCDEFGHIJ'' \<and> row \<in> set ''12345'')"
    unfolding column_letters row_digits ..
  also have "\<dots> = in_address_space [col, row]"
    by (simp only: in_address_space_def list.case)
  finally show ?thesis unfolding id .
next
  case False
  then show ?thesis
    by (auto simp: isValidCellReference_def in_address_space_def split: list.splits)
qed

lemma grid_bounds:
  assumes "col \<in> set ''ABCDEFGHIJ''" and "row \<in> set ''12345''"
  shows "0 \<le> indexOf COLUMNS [col] \<and> indexOf COLUMNS [col] < GRID_COLS
       \<and> 0 \<le> int (parseInt [row]) - 1 \<and> int (parseInt [row]) - 1 < GRID_ROWS"
proof -
  have "list_all (\<lambda>col. 0 \<le> indexOf COLUMNS [col] \<and> indexOf COLUMNS [col] < GRID_COLS) ''ABCDEFGHIJ''"
    by code_simp
  moreover have "list_all (\<lambda>row. 0 \<le> int (parseInt [row]) - 1 \<and> int (parseInt [row]) - 1 < GRID_ROWS) ''12345''"
    by code_simp
  ultimately show ?thesis using assms unfolding list_all_iff by blast
qed

lemma isValidCellId_address_space: "isValidCellId cellId = in_address_space cellId"
proof (cases "in_address_space cellId")
  case True
  then obtain col row where id: "cellId = [col, row]"
    and "col \<in> set ''ABCDEFGHIJ''" "row \<in> set ''12345''"
    by (auto simp: in_address_space_def split: list.splits)
  with grid_bounds[of col row] True show ?thesis
    by (simp add: isValidCellId_def isValidCellReference_address_space Let_def id)
next
  case False
  then show ?thesis by (simp add: isValidCellId_def isValidCellReference_address_space)
qed

text \<open>
  C6. For every identifier outside the address space of 10 columns and 5 rows (anything
  but a column letter A to J followed by a row digit 1 to 5: the column is not in A to J,
  the row is not in 1 to 5, or the string has another length), \<^verbatim>\<open>set\<close> and
  \<^verbatim>\<open>clearCell\<close> return \<open>False\<close> and leave the whole engine state as it was: cells,
  version, timestamp, dependency graph and the count of notifications.
\<close>

theorem invalid_identifier_rejected:
  assumes "\<not> in_address_space cellId"
  shows "set_cell h now e cellId val formula = (False, e) \<and> clearCell h now e cellId = (False, e)"
  using assms by (simp add: set_cell_def clearCell_def isValidCellId_address_space)

theorem invalid_identifier_rejected_witness:
  "set_cell sample_host 7 linked_engine ''Z1'' (Num (Fin 100)) None = (False, linked_engine) \<and>
   clearCell sample_host 7 linked_engine ''A6'' = (False, linked_engine) \<and>
   set_cell sample_host 7 linked_engine '''' (Num (Fin 100)) None = (False, linked_engine) \<and>
   clearCell sample_host 7 linked_engine ''AA1'' = (False, linked_engine)"
proof -
  have z: "\<not> in_address_space ''Z1''" by code_simp
  have a: "\<not> in_address_space ''A6''" by code_simp
  have n: "\<not> in_address_space ''''" by code_simp
  have l: "\<not> in_address_space ''AA1''" by code_simp
  from invalid_identifier_rejected[OF z] invalid_identifier_rejected[OF a]
       invalid_identifier_rejected[OF n] invalid_identifier_rejected[OF l]
  show ?thesis by blast
qed

text \<open>
  C10. For every valid identifier that has no stored cell record, \<^verbatim>\<open>clearCell\<close> returns
  \<open>True\<close> and leaves the whole engine state as it was: no cell, version, timestamp or
  graph change, and no notification.
\<close>

theorem clearCell_absent_cell:
  assumes "isValidCellId cellId" and "get e cellId = None"
  shows "clearCell h now e cellId = (True, e)"
  using assms by (simp add: clearCell_def get_def)

theorem clearCell_absent_cell_witness:
  "clearCell sample_host 7 linked_engine ''C3'' = (True, linked_engine)"
proof -
  have v: "isValidCellId ''C3''" by code_simp
  have n: "get linked_engine ''C3'' = None" by code_simp
  from clearCell_absent_cell[OF v n] show ?thesis .
qed

text \<open>
  C8. For every stored cell whose error message is set (it passes the test
  \<^verbatim>\<open>if (cell.error)\<close>: present and not empty), \<^verbatim>\<open>getRawValue\<close> returns the stored
  value when that value is a string beginning with \<^verbatim>\<open>#\<close>, and the error message itself
  otherwise. The result is never \<^verbatim>\<open>undefined\<close>, and it does not depend on the formula
  text of the cell.
\<close>

theorem getRawValue_errored_cell:
  assumes "get e cellId = Some cell" and "c_error cell = Some err" and "err \<noteq> []"
  shows "getRawValue e cellId = (if is_error_string (c_value cell) then c_value cell else Str err)
       \<and> getRawValue e cellId \<noteq> Undefined
       \<and> getRawValue (setCell e cellId (cell\<lparr>c_formula := f\<rparr>)) cellId = getRawValue e cellId"
  using assms
  by (auto simp: getRawValue_def get_def truthy_def is_error_string_def setCell_def
                 update_conv' startsWith_def
           split: cellval.splits)

theorem getRawValue_errored_cell_witness:
  "getRawValue cycle_engine ''B1'' =
     Str (''Circular reference detected: B1'' @ arrow @ ''A1'' @ arrow @ ''B1'')"
proof -
  define msg where "msg = ''Circular reference detected: B1'' @ arrow @ ''A1'' @ arrow @ ''B1''"
  define cell where "cell = errorCell ''B1'' ''=A1'' msg None"
  have g: "get cycle_engine ''B1'' = Some cell"
    unfolding cell_def msg_def by code_simp
  have e: "c_error cell = Some msg" by (simp add: cell_def errorCell_def)
  have n: "msg \<noteq> []" by (simp add: msg_def)
  from getRawValue_errored_cell[OF g e n, of "c_formula cell"]
  show ?thesis by (simp add: cell_def errorCell_def is_error_string_def msg_def)
qed

text \<open>
  C1, as the code has it. A formula write on a valid identifier that passes validation and
  the cycle check, but whose evaluation reports an error, stores the cell with the value
  and the error of the evaluation and with its dependencies, leaves the new dependency
  edges registered, notifies the observers once and returns \<open>False\<close>. It returns before
  the end of \<^verbatim>\<open>set\<close>: the version counter and the timestamp keep their values and no
  dependent of the cell is recomputed, so every other cell is as it was.
\<close>

theorem set_evaluation_error_not_committed:
  assumes valid: "isValidCellId cellId"
    and nonempty: "formula \<noteq> []"
    and wellformed: "validateFormula formula = None"
    and acyclic: "checkCircularReference (dependencyGraph (detachOldEdges e cellId)) cellId
                    (p_dependencies (parseFormula formula)) = None"
    and failed: "truthy (r_error (evaluateFormula h formula (getRawValue e)))"
  shows "set_cell h now e cellId val (Some formula) =
           (False,
            \<lparr>data = (data e)\<lparr>d_cells :=
                 AList.update cellId
                   \<lparr>c_id = cellId,
                    c_value = r_value (evaluateFormula h formula (getRawValue e)),
                    c_formula = Some formula,
                    c_error = r_error (evaluateFormula h formula (getRawValue e)),
                    c_dependents = oldDependents (get e cellId),
                    c_dependencies = p_dependencies (parseFormula formula)\<rparr>
                   (d_cells (data e))\<rparr>,
             dependencyGraph =
               fold (\<lambda>dep g. addDependency g cellId dep) (p_dependencies (parseFormula formula))
                 (dependencyGraph (detachOldEdges e cellId)),
             notifications = notifications e + 1\<rparr>)"
proof -
  have d: "data (detachOldEdges e cellId) = data e"
    "notifications (detachOldEdges e cellId) = notifications e"
    by (simp_all add: detachOldEdges_def)
  have raw: "\<And>g. getRawValue (detachOldEdges e cellId\<lparr>dependencyGraph := g\<rparr>) = getRawValue e"
    by (rule ext) (simp add: getRawValue_def d)
  show ?thesis
    using valid nonempty wellformed acyclic failed
    by (simp add: set_cell_def setFormula_def truthy_def Let_def raw d setCell_def
                  notifyChange_def get_def)
qed

theorem set_evaluation_error_not_committed_witness:
  "fst (set_cell sample_host 9 linked_engine ''A1'' Undefined (Some ''=FOO()'')) = False
   \<and> d_version (data (snd (set_cell sample_host 9 linked_engine ''A1'' Undefined (Some ''=FOO()''))))
       = d_version (data linked_engine)
   \<and> getDependents (dependencyGraph
        (snd (set_cell sample_host 9 linked_engine ''A1'' Undefined (Some ''=FOO()'')))) ''A1''
       = [''B1'']"
proof -
  have valid: "isValidCellId ''A1''" by code_simp
  have nonempty: "''=FOO()'' \<noteq> []" by simp
  have wellformed: "validateFormula ''=FOO()'' = None" by code_simp
  have acyclic: "checkCircularReference (dependencyGraph (detachOldEdges linked_engine ''A1''))
                   ''A1'' (p_dependencies (parseFormula ''=FOO()'')) = None" by code_simp
  have failed: "truthy (r_error (evaluateFormula sample_host ''=FOO()'' (getRawValue linked_engine)))"
    by code_simp
  have deps: "p_dependencies (parseFormula ''=FOO()'') = []" by code_simp
  have g: "getDependents (dependencyGraph (detachOldEdges linked_engine ''A1'')) ''A1'' = [''B1'']"
    by code_simp
  from set_evaluation_error_not_committed[OF valid nonempty wellformed acyclic failed, of 9 Undefined]
  show ?thesis by (simp add: deps g)
qed

text \<open>
  On the engine \<^verbatim>\<open>A1 = 10\<close>, \<^verbatim>\<open>B1 = A1\<close> (version 3, modified at time 2) the write
  \<^verbatim>\<open>set('A1', undefined, '=FOO()')\<close> at time 9 passes validation and the cycle check and
  evaluates to \<^verbatim>\<open>#NAME!\<close>. The version is still 3, the timestamp still 2, and the
  dependent \<^verbatim>\<open>B1\<close> still holds 10, where a recalculation would store \<^verbatim>\<open>#VALUE!\<close>.
\<close>

theorem set_evaluation_error_counterexample:
  "validateFormula ''=FOO()'' = None
   \<and> checkCircularReference (dependencyGraph (detachOldEdges linked_engine ''A1'')) ''A1''
       (p_dependencies (parseFormula ''=FOO()'')) = None
   \<and> r_error (evaluateFormula sample_host ''=FOO()'' (getRawValue linked_engine)) = Some ''#NAME!''
   \<and> fst (set_cell sample_host 9 linked_engine ''A1'' Undefined (Some ''=FOO()'')) = False
   \<and> d_version (data linked_engine) = 3
   \<and> d_version (data (snd (set_cell sample_host 9 linked_engine ''A1'' Undefined (Some ''=FOO()'')))) = 3
   \<and> d_lastModified (data (snd (set_cell sample_host 9 linked_engine ''A1'' Undefined (Some ''=FOO()'')))) = 2
   \<and> getRawValue (snd (set_cell sample_host 9 linked_engine ''A1'' Undefined (Some ''=FOO()''))) ''B1''
       = Num (Fin 10)
   \<and> getRawValue
        (recalculateDependents sample_host
           (snd (set_cell sample_host 9 linked_engine ''A1'' Undefined (Some ''=FOO()''))) ''A1'') ''B1''
       = Str ''#VALUE!''"
  by code_simp

subsection \<open>Recovery after a rejected cycle\<close>

lemma evaluate_reference_to_missing_cell:
  assumes "getCellValue ''B1'' = Undefined"
    and "runFunction h ''return 0'' = ReturnedNumber (Fin 0)"
  shows "evaluateFormula h ''=B1'' getCellValue =
           \<lparr>r_value = Num (Fin 0), r_error = None, r_dependencies = [''B1'']\<rparr>"
proof -
  have refs: "extractCellReferences ''B1'' = [''B1'']" by code_simp
  have valid: "isValidCellReference ''B1''" by code_simp
  have nofun: "matchAll FUNCTION_REGEX 0 ''B1'' = []" by code_simp
  have subst: "replace_all ''B1'' ''0'' ''B1'' = ''0''" by code_simp
  have chars: "isArithmetic ''0''" by code_simp
  have r: "round6 0 = 0" by code_simp
  show ?thesis
    using assms
    by (simp add: evaluateFormula_def startsWith_def refs valid nofun subst
                  evaluateExpression_def chars r Let_def
             del: matchAll.simps replace_all.simps)
qed

lemma evaluate_reference_to_100:
  assumes "getCellValue ''B1'' = Num (Fin 100)"
    and "numberToString h (Fin 100) = ''100''"
    and "runFunction h ''return 100'' = ReturnedNumber (Fin 100)"
  shows "evaluateFormula h ''=B1'' getCellValue =
           \<lparr>r_value = Num (Fin 100), r_error = None, r_dependencies = [''B1'']\<rparr>"
proof -
  have refs: "extractCellReferences ''B1'' = [''B1'']" by code_simp
  have valid: "isValidCellReference ''B1''" by code_simp
  have nofun: "matchAll FUNCTION_REGEX 0 ''B1'' = []" by code_simp
  have subst: "replace_all ''B1'' ''100'' ''B1'' = ''100''" by code_simp
  have chars: "isArithmetic ''100''" by code_simp
  have r: "round6 100 = 100" by code_simp
  show ?thesis
    using assms
    by (simp add: evaluateFormula_def startsWith_def refs valid nofun subst
                  evaluateExpression_def chars r Let_def
             del: matchAll.simps replace_all.simps)
qed

lemma first_write:
  assumes "runFunction h ''return 0'' = ReturnedNumber (Fin 0)"
  shows "set_cell h t1 (createSpreadsheetEngine t0 None) ''A1'' v (Some ''=B1'')
           = (True, after_first t1)"
proof -
  define e0 where "e0 = createSpreadsheetEngine t0 None"
  have e0: "e0 = \<lparr>data = \<lparr>d_cells = [], d_lastModified = t0, d_version = 1\<rparr>,
                  dependencyGraph = \<lparr>g_dependencies = [], g_dependents = []\<rparr>,
                  notifications = 0\<rparr>"
    by (simp add: e0_def createSpreadsheetEngine_def rebuildDependencyGraph_def
                  createDependencyGraph_def clear_graph_def)
  have valid: "isValidCellId ''A1''" by code_simp
  have wf: "validateFormula ''=B1'' = None" by code_simp
  have deps: "p_dependencies (parseFormula ''=B1'') = [''B1'']" by code_simp
  have acyc: "checkCircularReference \<lparr>g_dependencies = [], g_dependents = []\<rparr> ''A1'' [''B1''] = None"
    by code_simp
  have add: "addDependency \<lparr>g_dependencies = [], g_dependents = []\<rparr> ''A1'' ''B1''
               = \<lparr>g_dependencies = [(''A1'', [''B1''])], g_dependents = [(''B1'', [''A1''])]\<rparr>"
    by code_simp
  have nodeps: "getAllDependents \<lparr>g_dependencies = [(''A1'', [''B1''])],
                                  g_dependents = [(''B1'', [''A1''])]\<rparr> ''A1'' = []"
    by code_simp
  have raw: "getRawValue e ''B1'' = Undefined" if "d_cells (data e) = []" for e
    using that by (simp add: getRawValue_def)
  note ev = evaluate_reference_to_missing_cell[where h = h, OF _ assms]
  show ?thesis
    unfolding e0_def[symmetric] e0
    by (simp add: set_cell_def valid detachOldEdges_def truthy_def setFormula_def wf deps
                  Let_def ev raw commitWrite_def setCell_def recalculateDependents_def
                  notifyChange_def after_first_def oldDependents_def acyc add nodeps)
qed

lemma closing_cycle_detected:
  "checkCircularReference \<lparr>g_dependencies = [(''A1'', [''B1''])],
                            g_dependents = [(''B1'', [''A1''])]\<rparr> ''B1'' [''A1'']
     = Some (CircularReferenceError cycle_message [''B1'', ''A1'', ''B1''])"
  by code_simp

lemma second_write:
  "set_cell h t2 (after_first t1) ''B1'' v (Some ''=A1'') = (False, after_second t1)"
proof -
  have valid: "isValidCellId ''B1''" by code_simp
  have wf: "validateFormula ''=A1'' = None" by code_simp
  have deps: "p_dependencies (parseFormula ''=A1'') = [''A1'']" by code_simp
  show ?thesis
    by (simp add: set_cell_def valid detachOldEdges_def truthy_def setFormula_def wf deps
                  Let_def setCell_def notifyChange_def after_first_def after_second_def
                  oldDependents_def closing_cycle_detected errorCell_def)
qed

lemma third_write:
  assumes "numberToString h (Fin 100) = ''100''"
    and "runFunction h ''return 100'' = ReturnedNumber (Fin 100)"
  shows "set_cell h t3 (after_second t1) ''B1'' (Num (Fin 100)) None = (True, after_third t3)"
proof -
  have valid: "isValidCellId ''B1''" by code_simp
  have rm: "removeDependencies \<lparr>g_dependencies = [(''A1'', [''B1''])],
                                 g_dependents = [(''B1'', [''A1''])]\<rparr> ''B1''
              = \<lparr>g_dependencies = [(''A1'', [''B1''])], g_dependents = [(''B1'', [''A1''])]\<rparr>"
    by code_simp
  have all: "getAllDependents \<lparr>g_dependencies = [(''A1'', [''B1''])],
                               g_dependents = [(''B1'', [''A1''])]\<rparr> ''B1'' = [''A1'']"
    by code_simp
  note ev = evaluate_reference_to_100[where h = h, OF _ assms]
  show ?thesis
    by (simp add: set_cell_def valid detachOldEdges_def truthy_def rm
                  Let_def commitWrite_def setCell_def recalculateDependents_def all
                  recalculateCell_def ev getRawValue_def
                  notifyChange_def after_second_def after_third_def oldDependents_def)
qed

text \<open>
  C4. On a fresh engine, after \<^verbatim>\<open>set('A1', undefined, '=B1')\<close> and then
  \<^verbatim>\<open>set('B1', undefined, '=A1')\<close>, the second write is rejected with the
  circular-reference error and leaves the graph as the first write left it; the literal
  write \<^verbatim>\<open>set('B1', 100)\<close> that follows is accepted and its recalculation makes
  \<^verbatim>\<open>getRawValue('A1')\<close> equal to 100. The host is any host that evaluates the numerals
  \<open>0\<close> and \<open>100\<close> to these numbers and prints 100 as \<open>100\<close>.
\<close>

theorem recovery_after_rejected_cycle:
  fixes h :: host and t0 t1 t2 t3 :: nat and v1 v2 :: cellval
  defines "e1 \<equiv> snd (set_cell h t1 (createSpreadsheetEngine t0 None) ''A1'' v1 (Some ''=B1''))"
  defines "r2 \<equiv> set_cell h t2 e1 ''B1'' v2 (Some ''=A1'')"
  defines "r3 \<equiv> set_cell h t3 (snd r2) ''B1'' (Num (Fin 100)) None"
  assumes zero: "runFunction h ''return 0'' = ReturnedNumber (Fin 0)"
    and print: "numberToString h (Fin 100) = ''100''"
    and hundred: "runFunction h ''return 100'' = ReturnedNumber (Fin 100)"
  shows "fst r2 = False
       \<and> map_option c_error (get (snd r2) ''B1'') = Some (Some cycle_message)
       \<and> dependencyGraph (snd r2) = dependencyGraph e1
       \<and> fst r3 = True
       \<and> getRawValue (snd r3) ''A1'' = Num (Fin 100)"
proof -
  have e1: "e1 = after_first t1" by (simp add: e1_def first_write[OF zero])
  have r2: "r2 = (False, after_second t1)" by (simp add: r2_def e1 second_write)
  have r3: "r3 = (True, after_third t3)" by (simp add: r3_def r2 third_write[OF print hundred])
  show ?thesis
    by (simp add: e1 r2 r3 after_first_def after_second_def after_third_def get_def
                  getRawValue_def truthy_def)
qed

theorem recovery_after_rejected_cycle_witness:
  "getRawValue
     (snd (set_cell sample_host 3
        (snd (set_cell sample_host 2
           (snd (set_cell sample_host 1 (createSpreadsheetEngine 0 None)
                   ''A1'' Undefined (Some ''=B1'')))
           ''B1'' Undefined (Some ''=A1'')))
        ''B1'' (Num (Fin 100)) None)) ''A1'' = Num (Fin 100)"
proof -
  have zero: "runFunction sample_host ''return 0'' = ReturnedNumber (Fin 0)" by code_simp
  have print: "numberToString sample_host (Fin 100) = ''100''" by code_simp
  have hundred: "runFunction sample_host ''return 100'' = ReturnedNumber (Fin 100)" by code_simp
  from recovery_after_rejected_cycle[where ?t0.0 = 0 and ?t1.0 = 1 and ?t2.0 = 2 and ?t3.0 = 3
         and ?v1.0 = Undefined and ?v2.0 = Undefined, OF zero print hundred]
  show ?thesis by simp
qed

subsection \<open>Export and import\<close>

text \<open>
  An import reproduces every cell record, so the raw value and the formula of every cell.
\<close>

lemma import_export_preserves_cells:
  "get (importData e' (exportData e)) cellId = get e cellId
   \<and> getRawValue (importData e' (exportData e)) cellId = getRawValue e cellId
   \<and> getFormula (importData e' (exportData e)) cellId = getFormula e cellId"
  by (simp add: importData_def exportData_def notifyChange_def rebuildDependencyGraph_def
                get_def getRawValue_def getFormula_def)

text \<open>
  C7 says that an import of an exported snapshot also reproduces the statistics of the
  dependency graph. The code does not: \<^verbatim>\<open>rebuildDependencyGraph\<close> registers the
  references of every stored formula, also of a formula that \<^verbatim>\<open>set\<close> rejected and
  stored without edges. After \<^verbatim>\<open>A1 = B1\<close> and the rejected \<^verbatim>\<open>B1 = A1\<close> the graph has
  one cell with one edge; the graph of the importing engine has two cells with two edges and
  holds the cycle, so that the write \<^verbatim>\<open>C1 = A1\<close>, accepted by the first engine, is
  rejected by the second.
\<close>

theorem import_registers_edges_of_rejected_formula:
  "getStats_graph (dependencyGraph cycle_engine) = \<lparr>totalDependencies = 1, totalCells = 1\<rparr>
   \<and> getStats_graph (dependencyGraph (importData empty_engine (exportData cycle_engine)))
       = \<lparr>totalDependencies = 2, totalCells = 2\<rparr>
   \<and> fst (set_cell sample_host 5 cycle_engine ''C1'' Undefined (Some ''=A1'')) = True
   \<and> fst (set_cell sample_host 5 (importData empty_engine (exportData cycle_engine))
            ''C1'' Undefined (Some ''=A1'')) = False"
  by code_simp

section \<open>Properties of the evaluator\<close>

lemma map_filter_all_None: "(\<And>x. x \<in> set xs \<Longrightarrow> f x = None) \<Longrightarrow> List.map_filter f xs = []"
  by (induction xs) (simp_all add: List.map_filter_simps)

text \<open>
  C9. When every cell an aggregate call refers to is missing or not numeric (its value is
  \<^verbatim>\<open>undefined\<close>, a string that \<^verbatim>\<open>parseFloat\<close> maps to \<open>NaN\<close>, or \<open>NaN\<close>), the
  argument list of the call is empty, and \<^verbatim>\<open>SUM\<close>, \<^verbatim>\<open>AVERAGE\<close>, \<^verbatim>\<open>MIN\<close>,
  \<^verbatim>\<open>MAX\<close> and \<^verbatim>\<open>COUNT\<close> (in any letter case) each return the number 0, not an error
  value.
\<close>

theorem aggregate_without_numbers:
  assumes known: "toUpperCase functionName \<in> {''SUM'', ''AVERAGE'', ''MIN'', ''MAX'', ''COUNT''}"
    and skipped: "\<And>cellId. cellId \<in> set (argCells argsString) \<Longrightarrow>
           getCellValue cellId = Undefined
           \<or> (\<exists>s. getCellValue cellId = Str s \<and> parseFloat h s = NaN)
           \<or> getCellValue cellId = Num NaN"
  shows "functionArgs h getCellValue argsString = []
       \<and> evaluateFunction functionName (functionArgs h getCellValue argsString) = Num (Fin 0)"
proof -
  have "\<And>cellId. cellId \<in> set (argCells argsString) \<Longrightarrow>
          numericValue h (getCellValue cellId) = None"
    using skipped by (fastforce simp: numericValue_def isNaN_def)
  then have empty: "functionArgs h getCellValue argsString = []"
    unfolding functionArgs_def by (rule map_filter_all_None)
  from known have "evaluateFunction functionName [] = Num (Fin 0)"
    by (auto simp: evaluateFunction_def Let_def)
  with empty show ?thesis by simp
qed

theorem aggregate_without_numbers_witness:
  "evaluateFunction ''average''
     (functionArgs sample_host (getRawValue empty_engine) ''A1:A3,B2'') = Num (Fin 0)"
proof -
  have k: "toUpperCase ''average'' \<in> {''SUM'', ''AVERAGE'', ''MIN'', ''MAX'', ''COUNT''}"
    by code_simp
  have u: "getRawValue empty_engine cellId = Undefined
           \<or> (\<exists>s. getRawValue empty_engine cellId = Str s \<and> parseFloat sample_host s = NaN)
           \<or> getRawValue empty_engine cellId = Num NaN" for cellId
    by (simp add: getRawValue_def empty_engine_def createSpreadsheetEngine_def
                  rebuildDependencyGraph_def)
  from aggregate_without_numbers[OF k, of "''A1:A3,B2''" "getRawValue empty_engine" sample_host] u
  show ?thesis by blast
qed

subsection \<open>Unrecognized function names\<close>

lemma paren_not_letter: "\<not> isLetter CHR ''(''" by code_simp
lemma paren_not_space: "\<not> isSpace CHR ''(''" by code_simp

lemma FUNCTION_REGEX_no_paren:
  assumes "CHR ''('' \<notin> set s"
  shows "FUNCTION_REGEX s = None"
proof (cases "dropWhile isSpace (dropWhile isLetter s)")
  case Nil
  show ?thesis unfolding FUNCTION_REGEX_def Let_def Nil by simp
next
  case (Cons p r)
  then have "p \<in> set (dropWhile isSpace (dropWhile isLetter s))" by simp
  then have "p \<in> set s" by (meson set_dropWhileD)
  with assms have "p \<noteq> CHR ''(''" by auto
  then show ?thesis unfolding FUNCTION_REGEX_def Let_def Cons by simp
qed

lemma matchAll_FUNCTION_no_paren:
  "CHR ''('' \<notin> set s \<Longrightarrow> matchAll FUNCTION_REGEX i s = []"
proof (induction s arbitrary: i)
  case Nil
  then show ?case by (simp add: FUNCTION_REGEX_no_paren)
next
  case (Cons c s)
  then have "FUNCTION_REGEX (c # s) = None" by (intro FUNCTION_REGEX_no_paren) simp
  with Cons show ?case by simp
qed

lemma FUNCTION_REGEX_call:
  assumes "name \<noteq> []" and "list_all isLetter name"
  shows "FUNCTION_REGEX (name @ CHR ''('' # rest) = Some (length name + 1)"
proof -
  from assms(2) have all: "\<And>x. x \<in> set name \<Longrightarrow> isLetter x" by (simp add: list_all_iff)
  have t: "takeWhile isLetter (name @ CHR ''('' # rest) = name"
    using all by (simp add: takeWhile_append2 paren_not_letter)
  have d: "dropWhile isLetter (name @ CHR ''('' # rest) = CHR ''('' # rest"
    using all by (simp add: dropWhile_append2 paren_not_letter)
  show ?thesis using assms(1)
    by (simp add: FUNCTION_REGEX_def Let_def t d paren_not_space)
qed

lemma function_name_call:
  assumes "list_all isLetter name"
  shows "function_name (name @ ''('') = name"
  using assms by (simp add: function_name_def list_all_iff takeWhile_append2 paren_not_letter)

lemma findClosing_plain:
  "CHR ''('' \<notin> set args \<Longrightarrow> CHR '')'' \<notin> set args \<Longrightarrow>
     findClosing (args @ CHR '')'' # rest) i 1 e = i + length args"
  by (induction args arbitrary: i) (auto simp: Let_def)

lemma replace_first_self: "s \<noteq> [] \<Longrightarrow> replace_first s r s = r"
  by (cases s) simp_all

text \<open>
  A formula that is exactly one call of an unrecognized function, without parentheses in
  its arguments and with valid references only, evaluates to \<^verbatim>\<open>#NAME!\<close>, whatever the
  cells hold.
\<close>

lemma unknown_function_call_yields_NAME:
  assumes name: "name \<noteq> []" "list_all isLetter name"
    and unknown: "toUpperCase name \<notin> {''SUM'', ''AVERAGE'', ''MIN'', ''MAX'', ''COUNT''}"
    and args: "CHR ''('' \<notin> set args" "CHR '')'' \<notin> set args"
    and refs: "list_all isValidCellReference (extractCellReferences (name @ ''('' @ args @ '')''))"
  shows "evaluateFormula h (''='' @ name @ ''('' @ args @ '')'') getCellValue =
           \<lparr>r_value = Str ''#NAME!'', r_error = Some ''#NAME!'',
            r_dependencies = extractCellReferences (name @ ''('' @ args @ '')'')\<rparr>"
proof -
  define expression where "expression = name @ ''('' @ args @ '')''"
  have ne: "expression \<noteq> []" using name(1) by (simp add: expression_def)
  have valid: "filter (\<lambda>dep. \<not> isValidCellReference dep) (extractCellReferences expression) = []"
    using refs by (simp add: expression_def list_all_iff)
  have rx: "FUNCTION_REGEX expression = Some (length name + 1)"
    using FUNCTION_REGEX_call[OF name] by (simp add: expression_def)
  obtain c cs where ccs: "expression = c # cs" using ne by (cases expression) auto
  have tk: "take (length name + 1) expression = name @ ''(''" by (simp add: expression_def)
  have dr: "drop (length name + 1) expression = args @ '')''" by (simp add: expression_def)
  have "matchAll FUNCTION_REGEX 0 expression =
          (0, take (length name + 1) expression)
            # matchAll FUNCTION_REGEX (0 + (length name + 1)) (drop (length name + 1) expression)"
    using rx unfolding ccs by simp
  also have "matchAll FUNCTION_REGEX (0 + (length name + 1)) (drop (length name + 1) expression) = []"
    unfolding dr using args(1) by (intro matchAll_FUNCTION_no_paren) simp
  finally have ms: "matchAll FUNCTION_REGEX 0 expression = [(0, name @ ''('')]"
    using tk by simp
  have close: "findClosing (drop (length name) expression) (length name) 0 (length name)
                 = length name + 1 + length args"
    using findClosing_plain[OF args, of "[]" "length name + 1" "length name"]
    by (simp add: expression_def Let_def)
  have full: "slice expression 0 (length name + 1 + length args + 1) = expression"
    by (simp add: slice_def expression_def)
  have ev: "evaluateFunction name xs = Str ''#NAME!''" for xs
    using unknown by (simp add: evaluateFunction_def Let_def)
  have call: "processFunctionCall h getCellValue expression (0, name @ ''('') expression = ''#NAME!''"
    using close full
    by (simp add: processFunctionCall_def Let_def function_name_call[OF name(2)] ev
                  toString_def replace_first_self[OF ne])
  have "evaluateFormula h (''='' @ expression) getCellValue =
           \<lparr>r_value = Str ''#NAME!'', r_error = Some ''#NAME!'',
            r_dependencies = extractCellReferences expression\<rparr>"
    by (simp add: evaluateFormula_def startsWith_def Let_def valid ms call)
  then show ?thesis by (simp add: expression_def)
qed

lemma unknown_function_call_example:
  "evaluateFormula sample_host ''=UNKNOWN(A1:A3)'' (getRawValue linked_engine) =
     \<lparr>r_value = Str ''#NAME!'', r_error = Some ''#NAME!'',
      r_dependencies = [''A1'', ''A3'', ''A2'']\<rparr>"
proof -
  have name: "''UNKNOWN'' \<noteq> []" "list_all isLetter ''UNKNOWN''" by simp code_simp
  have unknown: "toUpperCase ''UNKNOWN'' \<notin> {''SUM'', ''AVERAGE'', ''MIN'', ''MAX'', ''COUNT''}"
    by code_simp
  have args: "CHR ''('' \<notin> set ''A1:A3''" "CHR '')'' \<notin> set ''A1:A3''" by simp_all
  have refs: "list_all isValidCellReference (extractCellReferences (''UNKNOWN'' @ ''('' @ ''A1:A3'' @ '')''))"
    by code_simp
  have deps: "extractCellReferences ''UNKNOWN(A1:A3)'' = [''A1'', ''A3'', ''A2'']"
    by code_simp
  from unknown_function_call_yields_NAME[OF name unknown args refs, of sample_host "getRawValue linked_engine"]
  show ?thesis by (simp add: deps)
qed

lemma unknown_name: "evaluateFunction ''UNKNOWN'' args = Str ''#NAME!''"
proof -
  have "toUpperCase ''UNKNOWN'' = ''UNKNOWN''" by code_simp
  then show ?thesis by (simp add: evaluateFunction_def Let_def)
qed

text \<open>
  C3 says that an unrecognized function name anywhere in the expression makes the whole
  formula evaluate to \<^verbatim>\<open>#NAME!\<close>. The code tests only whether the expression starts
  with \<^verbatim>\<open>#\<close> once the call is replaced by \<^verbatim>\<open>#NAME!\<close>: on every host and whatever
  the cells hold, \<^verbatim>\<open>=1+UNKNOWN(A1:A3)\<close> evaluates to \<^verbatim>\<open>#VALUE!\<close>, and
  \<^verbatim>\<open>=UNKNOWN(A1:A3)+1\<close> to the string \<^verbatim>\<open>#NAME!+1\<close>.
\<close>

theorem unknown_function_nested_not_NAME:
  "evaluateFormula h ''=1+UNKNOWN(A1:A3)'' getCellValue
     = \<lparr>r_value = Str ''#VALUE!'', r_error = Some ''#VALUE!'',
        r_dependencies = [''A1'', ''A3'', ''A2'']\<rparr>
   \<and> evaluateFormula h ''=UNKNOWN(A1:A3)+1'' getCellValue
     = \<lparr>r_value = Str ''#NAME!+1'', r_error = Some ''#NAME!+1'',
        r_dependencies = [''A1'', ''A3'', ''A2'']\<rparr>"
proof -
  have refs1: "extractCellReferences ''1+UNKNOWN(A1:A3)'' = [''A1'', ''A3'', ''A2'']" by code_simp
  have refs2: "extractCellReferences ''UNKNOWN(A1:A3)+1'' = [''A1'', ''A3'', ''A2'']" by code_simp
  have valid: "isValidCellReference ''A1''" "isValidCellReference ''A2''"
    "isValidCellReference ''A3''"
    by code_simp+
  have m1: "matchAll FUNCTION_REGEX 0 ''1+UNKNOWN(A1:A3)'' = [(2, ''UNKNOWN('')]" by code_simp
  have m2: "matchAll FUNCTION_REGEX 0 ''UNKNOWN(A1:A3)+1'' = [(0, ''UNKNOWN('')]" by code_simp
  have name: "function_name ''UNKNOWN('' = ''UNKNOWN''" by code_simp
  have f1: "slice ''1+UNKNOWN(A1:A3)'' 2
              (findClosing (drop (2 + length ''UNKNOWN('' - 1) ''1+UNKNOWN(A1:A3)'')
                 (2 + length ''UNKNOWN('' - 1) 0 (2 + length ''UNKNOWN('' - 1) + 1)
            = ''UNKNOWN(A1:A3)''" by code_simp
  have f2: "slice ''UNKNOWN(A1:A3)+1'' 0
              (findClosing (drop (0 + length ''UNKNOWN('' - 1) ''UNKNOWN(A1:A3)+1'')
                 (0 + length ''UNKNOWN('' - 1) 0 (0 + length ''UNKNOWN('' - 1) + 1)
            = ''UNKNOWN(A1:A3)''" by code_simp
  have r1: "replace_first ''UNKNOWN(A1:A3)'' ''#NAME!'' ''1+UNKNOWN(A1:A3)'' = ''1+#NAME!''"
    by code_simp
  have r2: "replace_first ''UNKNOWN(A1:A3)'' ''#NAME!'' ''UNKNOWN(A1:A3)+1'' = ''#NAME!+1''"
    by code_simp
  have p1: "processFunctionCall h getCellValue ''1+UNKNOWN(A1:A3)'' (2, ''UNKNOWN('')
              ''1+UNKNOWN(A1:A3)'' = ''1+#NAME!''"
    by (simp only: processFunctionCall_def Let_def fst_conv snd_conv name unknown_name
                   toString_def cellval.case f1 r1)
  have p2: "processFunctionCall h getCellValue ''UNKNOWN(A1:A3)+1'' (0, ''UNKNOWN('')
              ''UNKNOWN(A1:A3)+1'' = ''#NAME!+1''"
    by (simp only: processFunctionCall_def Let_def fst_conv snd_conv name unknown_name
                   toString_def cellval.case f2 r2)
  have a1: "\<not> isArithmetic ''1+#NAME!''" by code_simp
  have s1: "\<not> startsWith ''1+#NAME!'' ''#''" by code_simp
  have s2: "startsWith ''#NAME!+1'' ''#''" by code_simp
  have e1: "evaluateExpression h ''1+#NAME!'' = Str ''#VALUE!''"
    by (simp add: evaluateExpression_def a1)
  have i1: "is_error_string (Str ''#VALUE!'')" by code_simp
  have "evaluateFormula h ''=1+UNKNOWN(A1:A3)'' getCellValue
     = \<lparr>r_value = Str ''#VALUE!'', r_error = Some ''#VALUE!'',
        r_dependencies = [''A1'', ''A3'', ''A2'']\<rparr>"
    by (simp add: evaluateFormula_def startsWith_def[of "''=1+UNKNOWN(A1:A3)''"] refs1 valid m1 p1
                  s1 e1 i1 toString_def Let_def
             del: matchAll.simps)
  moreover have "evaluateFormula h ''=UNKNOWN(A1:A3)+1'' getCellValue
     = \<lparr>r_value = Str ''#NAME!+1'', r_error = Some ''#NAME!+1'',
        r_dependencies = [''A1'', ''A3'', ''A2'']\<rparr>"
    by (simp add: evaluateFormula_def startsWith_def[of "''=UNKNOWN(A1:A3)+1''"] refs2 valid m2 p2
                  s2 Let_def
             del: matchAll.simps)
  ultimately show ?thesis by simp
qed

end
